theory Spec2Isabelle
  imports Complex_Main "HOL-Library.Char_ord" "HOL-Library.List_Lexorder"
    "HOL-Library.Product_Lexorder"
begin

section \<open>Strings and decimal numerals\<close>

text \<open>
  JavaScript strings are modelled as \<open>string\<close> (lists of 8-bit characters): the characters
  that matter to the analyzer (digits, letters, dots, dashes, range operators, blanks) are
  all ASCII.
\<close>

definition is_digit :: "char \<Rightarrow> bool" where
  "is_digit c = (48 \<le> (of_char c :: nat) \<and> (of_char c :: nat) \<le> 57)"

definition is_letter :: "char \<Rightarrow> bool" where
  "is_letter c = ((65 \<le> (of_char c :: nat) \<and> (of_char c :: nat) \<le> 90)
                 \<or> (97 \<le> (of_char c :: nat) \<and> (of_char c :: nat) \<le> 122))"

text \<open>The class \<open>[a-zA-Z0-9-]\<close> of the semver grammar.\<close>
definition is_letterdashnumber :: "char \<Rightarrow> bool" where
  "is_letterdashnumber c = (is_digit c \<or> is_letter c \<or> c = CHR ''-'')"

text \<open>White space removed by \<open>String.prototype.trim\<close> (code units below 256).\<close>
definition is_space :: "char \<Rightarrow> bool" where
  "is_space c = ((of_char c :: nat) \<in> {9, 10, 11, 12, 13, 32, 160})"

definition trim :: "string \<Rightarrow> string" where
  "trim s = rev (dropWhile is_space (rev (dropWhile is_space s)))"

definition digit_char :: "nat \<Rightarrow> char" where
  "digit_char d = char_of (48 + d)"

text \<open>
  Decimal rendering of a non-negative integer, as \<open>String(n)\<close> does (JavaScript numbers
  that hold integers are modelled as \<open>int\<close>).
\<close>
function show_dec :: "int \<Rightarrow> string" where
  "show_dec n =
     (if n < 10 then [digit_char (nat n)]
      else show_dec (n div 10) @ [digit_char (nat (n mod 10))])"
  by pat_completeness auto
termination
  by (relation "measure nat") auto

declare show_dec.simps [simp del]

definition show_int :: "int \<Rightarrow> string" where
  "show_int i = (if i < 0 then CHR ''-'' # show_dec (- i) else show_dec i)"

text \<open>Value of a string of decimal digits, as unary \<open>+\<close> gives it.\<close>
definition digits_val :: "string \<Rightarrow> int" where
  "digits_val s = foldl (\<lambda>a c. 10 * a + (int (of_char c) - 48)) 0 s"

text \<open>\<open>s.split(c)\<close> for a one-character separator.\<close>
function split_on :: "char \<Rightarrow> string \<Rightarrow> string list" where
  "split_on c s =
     (case dropWhile (\<lambda>x. x \<noteq> c) s of
        [] \<Rightarrow> [s]
      | _ # rest \<Rightarrow> takeWhile (\<lambda>x. x \<noteq> c) s # split_on c rest)"
  by pat_completeness auto
termination
proof (relation "measure (\<lambda>(c, s). length s)")
  show "wf (measure (\<lambda>(c, s). length s))" by simp
next
  fix c :: char and s x21 x22
  assume "dropWhile (\<lambda>x. x \<noteq> c) s = x21 # x22"
  then have "length x22 < length (dropWhile (\<lambda>x. x \<noteq> c) s)" by simp
  also have "\<dots> \<le> length s" by (rule length_dropWhile_le)
  finally show "((c, x22), (c, s)) \<in> measure (\<lambda>(c, s). length s)" by simp
qed

declare split_on.simps [simp del]

text \<open>\<open>xs.join(sep)\<close> for a list of strings.\<close>
fun join :: "string \<Rightarrow> string list \<Rightarrow> string" where
  "join sep [] = []"
| "join sep [x] = x"
| "join sep (x # y # ys) = x @ sep @ join sep (y # ys)"

text \<open>String comparison with \<open><\<close>: lexicographic on code units, a proper prefix is smaller.\<close>
fun str_lt :: "string \<Rightarrow> string \<Rightarrow> bool" where
  "str_lt [] [] = False"
| "str_lt [] (y # ys) = True"
| "str_lt (x # xs) [] = False"
| "str_lt (x # xs) (y # ys) =
     ((of_char x :: nat) < of_char y \<or> (x = y \<and> str_lt xs ys))"

section \<open>JavaScript numbers\<close>

text \<open>
  A JavaScript number is an IEEE 754 double.  The numbers that the analyzer computes with
  are integers (counts, version components, their differences, products and sums), and an
  arithmetic operation on them yields the double nearest to the exact result, a tie going
  to the even significand; that double is an integer again.  Every integer up to \<open>2^53\<close>
  in magnitude is a double; beyond, the doubles around \<open>a\<close> are the multiples of \<open>ulp a\<close>.
  (No value of the analyzer comes near \<open>2^1024\<close>, where doubles end.)
\<close>
function ulp :: "int \<Rightarrow> int" where
  "ulp a = (if a < 9007199254740992 then 1 else 2 * ulp (a div 2))"
  by pat_completeness auto
termination
  by (relation "measure nat") auto

declare ulp.simps [simp del]

text \<open>The double nearest to an integer.\<close>
definition to_double :: "int \<Rightarrow> int" where
  "to_double x =
     (let a = \<bar>x\<bar>; u = ulp a; q = a div u; r = a mod u;
          m = (if u < 2 * r \<or> (2 * r = u \<and> odd q) then q + 1 else q) * u
      in if x < 0 then - m else m)"

text \<open>The operators \<open>+\<close>, \<open>-\<close> and \<open>*\<close> on numbers that hold integers.\<close>
definition js_add :: "int \<Rightarrow> int \<Rightarrow> int" where
  "js_add a b = to_double (a + b)"

definition js_sub :: "int \<Rightarrow> int \<Rightarrow> int" where
  "js_sub a b = to_double (a - b)"

definition js_mul :: "int \<Rightarrow> int \<Rightarrow> int" where
  "js_mul a b = to_double (a * b)"

section \<open>The semver library\<close>

text \<open>
  The service delegates version handling to the \<open>semver\<close> package (node-semver 7).  Its
  functions are modelled on parsed versions: \<open>major.minor.patch\<close>, the dot-separated
  pre-release identifiers and the build identifiers.  A numeric pre-release identifier is
  kept as its (canonical) decimal string.
\<close>

record SemVer =
  sv_major :: int
  sv_minor :: int
  sv_patch :: int
  sv_prerelease :: "string list"
  sv_build :: "string list"

definition MAX_LENGTH :: nat where
  "MAX_LENGTH = 256"

definition MAX_SAFE_INTEGER :: int where
  "MAX_SAFE_INTEGER = 9007199254740991"

text \<open>\<open>NUMERICIDENTIFIER = 0|[1-9]\d*\<close>\<close>
definition numeric_identifier :: "string \<Rightarrow> bool" where
  "numeric_identifier s =
     (s \<noteq> [] \<and> list_all is_digit s \<and> (hd s = CHR ''0'' \<longrightarrow> s = ''0''))"

text \<open>\<open>PRERELEASEIDENTIFIER = NUMERICIDENTIFIER | \d*[a-zA-Z-][a-zA-Z0-9-]*\<close>\<close>
definition prerelease_identifier :: "string \<Rightarrow> bool" where
  "prerelease_identifier s =
     (s \<noteq> [] \<and> list_all is_letterdashnumber s \<and> (list_all is_digit s \<longrightarrow> numeric_identifier s))"

text \<open>\<open>BUILDIDENTIFIER = [a-zA-Z0-9-]+\<close>\<close>
definition build_identifier :: "string \<Rightarrow> bool" where
  "build_identifier s = (s \<noteq> [] \<and> list_all is_letterdashnumber s)"

text \<open>The part of a string before the first occurrence of \<open>c\<close>, and the part after it, if any.\<close>
definition before_char :: "char \<Rightarrow> string \<Rightarrow> string" where
  "before_char c s = takeWhile (\<lambda>x. x \<noteq> c) s"

definition after_char :: "char \<Rightarrow> string \<Rightarrow> string option" where
  "after_char c s = (case dropWhile (\<lambda>x. x \<noteq> c) s of [] \<Rightarrow> None | _ # rest \<Rightarrow> Some rest)"

text \<open>
  The three numeric components \<open>(N)\.(N)\.(N)\<close>; each must not exceed
  \<open>Number.MAX_SAFE_INTEGER\<close>.
\<close>
definition parse_main :: "string \<Rightarrow> (int \<times> int \<times> int) option" where
  "parse_main s =
     (case split_on CHR ''.'' s of
        [a, b, c] \<Rightarrow>
          if numeric_identifier a \<and> numeric_identifier b \<and> numeric_identifier c
             \<and> digits_val a \<le> MAX_SAFE_INTEGER \<and> digits_val b \<le> MAX_SAFE_INTEGER
             \<and> digits_val c \<le> MAX_SAFE_INTEGER
          then Some (digits_val a, digits_val b, digits_val c) else None
      | _ \<Rightarrow> None)"

definition parse_idents :: "(string \<Rightarrow> bool) \<Rightarrow> string option \<Rightarrow> string list option" where
  "parse_idents ok part =
     (case part of
        None \<Rightarrow> Some []
      | Some p \<Rightarrow> (let ids = split_on CHR ''.'' p in if list_all ok ids then Some ids else None))"

text \<open>The optional leading \<open>v\<close>.\<close>
definition strip_v :: "string \<Rightarrow> string" where
  "strip_v s = (case s of [] \<Rightarrow> s | c # r \<Rightarrow> if c = CHR ''v'' then r else s)"

text \<open>\<open>MAIN(-PRERELEASE)?(\+BUILD)?\<close>, anchored at both ends.\<close>
definition parse_full :: "string \<Rightarrow> SemVer option" where
  "parse_full s =
     (let core = before_char CHR ''+'' s;
          bld = after_char CHR ''+'' s
      in case parse_main (before_char CHR ''-'' core) of
           None \<Rightarrow> None
         | Some (ma, mi, pa) \<Rightarrow>
             (case parse_idents prerelease_identifier (after_char CHR ''-'' core) of
                None \<Rightarrow> None
              | Some pre \<Rightarrow>
                  (case parse_idents build_identifier bld of
                     None \<Rightarrow> None
                   | Some b \<Rightarrow>
                       Some \<lparr>sv_major = ma, sv_minor = mi, sv_patch = pa,
                             sv_prerelease = pre, sv_build = b\<rparr>)))"

text \<open>
  \<open>semver.parse(version)\<close> in strict mode: the string is at most 256 characters long and,
  trimmed, matches \<open>^v?MAIN(-PRERELEASE)?(\+BUILD)?$\<close>.  \<open>None\<close> is \<open>null\<close>.
\<close>
definition semver_parse :: "string \<Rightarrow> SemVer option" where
  "semver_parse raw =
     (if length raw > MAX_LENGTH then None else parse_full (strip_v (trim raw)))"

text \<open>\<open>SemVer.format()\<close>: the \<open>version\<close> property, without build metadata.\<close>
definition format :: "SemVer \<Rightarrow> string" where
  "format v =
     show_dec (sv_major v) @ ''.'' @ show_dec (sv_minor v) @ ''.'' @ show_dec (sv_patch v)
     @ (if sv_prerelease v = [] then [] else ''-'' @ join ''.'' (sv_prerelease v))"

text \<open>\<open>semver.valid(version)\<close>: the normalised version string, or \<open>null\<close>.\<close>
definition semver_valid :: "string \<Rightarrow> string option" where
  "semver_valid s = map_option format (semver_parse s)"

text \<open>\<open>semver.clean(version)\<close>: trims, drops leading \<open>=\<close> and \<open>v\<close> characters, then parses.\<close>
definition semver_clean :: "string \<Rightarrow> string option" where
  "semver_clean s =
     map_option format
       (semver_parse (dropWhile (\<lambda>c. c = CHR ''='' \<or> c = CHR ''v'') (trim s)))"

text \<open>Errors thrown by the JavaScript code, with their message.\<close>
datatype js_error = TypeError string | Error string

fun error_message :: "js_error \<Rightarrow> string" where
  "error_message (TypeError m) = m"
| "error_message (Error m) = m"

text \<open>Sequencing of computations that may throw.\<close>
definition bindE :: "js_error + 'a \<Rightarrow> ('a \<Rightarrow> js_error + 'b) \<Rightarrow> js_error + 'b" where
  "bindE m f = (case m of Inl e \<Rightarrow> Inl e | Inr x \<Rightarrow> f x)"

text \<open>\<open>new SemVer(version)\<close> for a string: throws on an invalid version.\<close>
definition new_SemVer :: "string \<Rightarrow> js_error + SemVer" where
  "new_SemVer s =
     (case semver_parse s of
        None \<Rightarrow> Inl (TypeError (''Invalid Version: '' @ s))
      | Some v \<Rightarrow> Inr v)"

definition compare_num :: "int \<Rightarrow> int \<Rightarrow> int" where
  "compare_num a b = (if a = b then 0 else if a < b then - 1 else 1)"

definition is_numeric :: "string \<Rightarrow> bool" where
  "is_numeric s = (s \<noteq> [] \<and> list_all is_digit s)"

text \<open>
  \<open>compareIdentifiers(a, b)\<close> on pre-release identifiers: two numeric identifiers are
  converted to numbers by unary \<open>+\<close> and compare by value, a numeric one is below a
  non-numeric one, two others compare as strings.
\<close>
definition compareIdentifiers :: "string \<Rightarrow> string \<Rightarrow> int" where
  "compareIdentifiers a b =
     (if is_numeric a \<and> is_numeric b
      then compare_num (to_double (digits_val a)) (to_double (digits_val b))
      else if a = b then 0
      else if is_numeric a \<and> \<not> is_numeric b then - 1
      else if is_numeric b \<and> \<not> is_numeric a then 1
      else if str_lt a b then - 1 else 1)"

definition compareMain :: "SemVer \<Rightarrow> SemVer \<Rightarrow> int" where
  "compareMain v w =
     (if compare_num (sv_major v) (sv_major w) \<noteq> 0 then compare_num (sv_major v) (sv_major w)
      else if compare_num (sv_minor v) (sv_minor w) \<noteq> 0 then compare_num (sv_minor v) (sv_minor w)
      else compare_num (sv_patch v) (sv_patch w))"

fun compare_pre_ids :: "string list \<Rightarrow> string list \<Rightarrow> int" where
  "compare_pre_ids [] [] = 0"
| "compare_pre_ids (a # as) [] = 1"
| "compare_pre_ids [] (b # bs) = - 1"
| "compare_pre_ids (a # as) (b # bs) =
     (if a = b then compare_pre_ids as bs else compareIdentifiers a b)"

definition comparePre :: "SemVer \<Rightarrow> SemVer \<Rightarrow> int" where
  "comparePre v w =
     (if sv_prerelease v \<noteq> [] \<and> sv_prerelease w = [] then - 1
      else if sv_prerelease v = [] \<and> sv_prerelease w \<noteq> [] then 1
      else if sv_prerelease v = [] \<and> sv_prerelease w = [] then 0
      else compare_pre_ids (sv_prerelease v) (sv_prerelease w))"

text \<open>\<open>SemVer.compare(other)\<close>: build metadata takes no part.\<close>
definition compare_versions :: "SemVer \<Rightarrow> SemVer \<Rightarrow> int" where
  "compare_versions v w =
     (if format v = format w then 0
      else if compareMain v w \<noteq> 0 then compareMain v w
      else comparePre v w)"

text \<open>\<open>semver.compare(a, b)\<close> and \<open>semver.gt(a, b)\<close> on strings.\<close>
definition semver_compare :: "string \<Rightarrow> string \<Rightarrow> js_error + int" where
  "semver_compare a b =
     bindE (new_SemVer a) (\<lambda>v. bindE (new_SemVer b) (\<lambda>w. Inr (compare_versions v w)))"

definition semver_gt :: "string \<Rightarrow> string \<Rightarrow> js_error + bool" where
  "semver_gt a b = bindE (semver_compare a b) (\<lambda>c. Inr (c > 0))"

text \<open>\<open>semver.major\<close>, \<open>semver.minor\<close>, \<open>semver.patch\<close>.\<close>
definition semver_major :: "string \<Rightarrow> js_error + int" where
  "semver_major a = bindE (new_SemVer a) (\<lambda>v. Inr (sv_major v))"

definition semver_minor :: "string \<Rightarrow> js_error + int" where
  "semver_minor a = bindE (new_SemVer a) (\<lambda>v. Inr (sv_minor v))"

definition semver_patch :: "string \<Rightarrow> js_error + int" where
  "semver_patch a = bindE (new_SemVer a) (\<lambda>v. Inr (sv_patch v))"

datatype release_type =
  RMajor | RPremajor | RMinor | RPreminor | RPatch | RPrepatch | RPrerelease

text \<open>
  \<open>semver.diff(version1, version2)\<close> (\<open>functions/diff.js\<close> of node-semver 7.7): \<open>None\<close> is
  \<open>null\<close>, returned for versions that compare equal.  Going from a pre-release to a
  release is special-cased before the components are compared; releases of the library
  before 7.5 do not have this case and name the first differing component there as well.
  The repository does not say which release is installed.
\<close>
definition diff_versions :: "SemVer \<Rightarrow> SemVer \<Rightarrow> release_type option" where
  "diff_versions v1 v2 =
     (let comparison = compare_versions v1 v2 in
      if comparison = 0 then None
      else
        let v1Higher = (comparison > 0);
            highVersion = (if v1Higher then v1 else v2);
            lowVersion = (if v1Higher then v2 else v1);
            highHasPre = (sv_prerelease highVersion \<noteq> []);
            lowHasPre = (sv_prerelease lowVersion \<noteq> [])
        in
          if lowHasPre \<and> \<not> highHasPre \<and> sv_patch lowVersion = 0 \<and> sv_minor lowVersion = 0
          then Some RMajor
          else if lowHasPre \<and> \<not> highHasPre \<and> compareMain lowVersion highVersion = 0
          then (if sv_minor lowVersion \<noteq> 0 \<and> sv_patch lowVersion = 0 then Some RMinor
                else Some RPatch)
          else if sv_major v1 \<noteq> sv_major v2
          then Some (if highHasPre then RPremajor else RMajor)
          else if sv_minor v1 \<noteq> sv_minor v2
          then Some (if highHasPre then RPreminor else RMinor)
          else if sv_patch v1 \<noteq> sv_patch v2
          then Some (if highHasPre then RPrepatch else RPatch)
          else Some RPrerelease)"

definition semver_diff :: "string \<Rightarrow> string \<Rightarrow> js_error + release_type option" where
  "semver_diff a b =
     bindE (new_SemVer a) (\<lambda>v. bindE (new_SemVer b) (\<lambda>w. Inr (diff_versions v w)))"

section \<open>Version operations of the service\<close>

datatype update_type = Major | Minor | Patch

text \<open>
  \<open>extractVersionFromRange\<close>: removes every character of \<open>[\^~>=<]\<close>, trims, and asks
  \<open>semver.valid\<close>.
\<close>
definition extractVersionFromRange :: "string \<Rightarrow> string option" where
  "extractVersionFromRange rng =
     semver_valid (trim (filter (\<lambda>c. c \<notin> set ''^~>=<'') rng))"

text \<open>
  \<open>determineUpdateType\<close>: any failure inside the \<open>try\<close> block, a version that does not
  clean, and every \<open>diff\<close> result that is not listed fall back to \<open>patch\<close>.
\<close>
definition determineUpdateType :: "string \<Rightarrow> string \<Rightarrow> update_type" where
  "determineUpdateType currentVersion latestVersion =
     (case (semver_clean currentVersion, semver_clean latestVersion) of
        (Some current, Some latest) \<Rightarrow>
          (case semver_diff current latest of
             Inl e \<Rightarrow> Patch
           | Inr diffType \<Rightarrow>
               if diffType = Some RMajor \<or> diffType = Some RPremajor then Major
               else if diffType = Some RMinor \<or> diffType = Some RPreminor then Minor
               else if diffType = Some RPatch \<or> diffType = Some RPrepatch then Patch
               else Patch)
      | _ \<Rightarrow> Patch)"

record VersionDistance =
  majorVersionsBehind :: int
  minorVersionsBehind :: int
  patchVersionsBehind :: int
  totalDistance :: int

definition zero_distance :: VersionDistance where
  "zero_distance =
     \<lparr>majorVersionsBehind = 0, minorVersionsBehind = 0, patchVersionsBehind = 0,
      totalDistance = 0\<rparr>"

text \<open>\<open>calculateVersionDistance\<close>: all zeros when a version does not clean or an error is caught.\<close>
definition calculateVersionDistance :: "string \<Rightarrow> string \<Rightarrow> VersionDistance" where
  "calculateVersionDistance current latest =
     (case (semver_clean current, semver_clean latest) of
        (Some cur, Some lat) \<Rightarrow>
          (case bindE (semver_major lat) (\<lambda>lmaj. bindE (semver_major cur) (\<lambda>cmaj.
                bindE (semver_minor lat) (\<lambda>lmin. bindE (semver_minor cur) (\<lambda>cmin.
                bindE (semver_patch lat) (\<lambda>lpat. bindE (semver_patch cur) (\<lambda>cpat.
                  let majorDiff = js_sub lmaj cmaj; minorDiff = js_sub lmin cmin;
                      patchDiff = js_sub lpat cpat
                  in Inr \<lparr>majorVersionsBehind = majorDiff,
                          minorVersionsBehind = (if majorDiff = 0 then minorDiff else 0),
                          patchVersionsBehind =
                            (if majorDiff = 0 \<and> minorDiff = 0 then patchDiff else 0),
                          totalDistance =
                            js_add (js_add (js_mul majorDiff 10000) (js_mul minorDiff 100))
                              patchDiff\<rparr>))))))
           of Inl e \<Rightarrow> zero_distance | Inr d \<Rightarrow> d)
      | _ \<Rightarrow> zero_distance)"

section \<open>JavaScript values\<close>

text \<open>
  The manifest and the external responses reach the service as parsed JSON (type \<open>any\<close>).
  An object is the list of its own properties in enumeration order; numbers are integers
  (identifiers of advisories), meant to be safe integers, whose decimal form is what
  \<open>toString\<close> prints; \<open>JUndefined\<close> is the value of an absent property or argument.
\<close>

datatype json =
  JUndefined | JNull | JBool bool | JNum int | JStr string
  | JArr "json list" | JObj "(string \<times> json) list"

fun truthy :: "json \<Rightarrow> bool" where
  "truthy JUndefined = False"
| "truthy JNull = False"
| "truthy (JBool b) = b"
| "truthy (JNum n) = (n \<noteq> 0)"
| "truthy (JStr s) = (s \<noteq> [])"
| "truthy (JArr xs) = True"
| "truthy (JObj es) = True"

fun nullish :: "json \<Rightarrow> bool" where
  "nullish JUndefined = True"
| "nullish JNull = True"
| "nullish j = False"

text \<open>\<open>typeof x === 'object'\<close>: true of \<open>null\<close> as well.\<close>
fun typeof_object :: "json \<Rightarrow> bool" where
  "typeof_object JNull = True"
| "typeof_object (JArr xs) = True"
| "typeof_object (JObj es) = True"
| "typeof_object j = False"

text \<open>The name of a value in an error message.\<close>
fun nullish_name :: "json \<Rightarrow> string" where
  "nullish_name JNull = ''null''"
| "nullish_name j = ''undefined''"

text \<open>
  The own enumerable string-keyed properties of a value that is not \<open>null\<close> or
  \<open>undefined\<close>, as \<open>Object.entries\<close>, \<open>Object.keys\<close> and object spread see them: the
  properties of an object, the indexed elements of an array, the indexed characters of a
  string, nothing for numbers and booleans.
\<close>
fun own_entries :: "json \<Rightarrow> (string \<times> json) list" where
  "own_entries (JObj es) = es"
| "own_entries (JArr xs) = zip (map (\<lambda>i. show_dec (int i)) [0..<length xs]) xs"
| "own_entries (JStr s) = zip (map (\<lambda>i. show_dec (int i)) [0..<length s]) (map (\<lambda>c. JStr [c]) s)"
| "own_entries j = []"

text \<open>
  Reading a property \<open>x.k\<close> or \<open>x[k]\<close>: a \<open>TypeError\<close> on \<open>null\<close> and \<open>undefined\<close>,
  \<open>undefined\<close> when the property is absent.  Only own properties are modelled; none of the
  names the service reads is inherited by a JSON value.
\<close>
definition get_prop :: "json \<Rightarrow> string \<Rightarrow> js_error + json" where
  "get_prop x k =
     (if nullish x
      then Inl (TypeError (''Cannot read properties of '' @ nullish_name x
                           @ '' (reading '' @ [CHR 0x27] @ k @ [CHR 0x27] @ '')''))
      else Inr (case map_of (own_entries x) k of None \<Rightarrow> JUndefined | Some v \<Rightarrow> v))"

text \<open>Optional chaining \<open>x?.k\<close>.\<close>
definition get_opt :: "json \<Rightarrow> string \<Rightarrow> json" where
  "get_opt x k =
     (if nullish x then JUndefined
      else (case map_of (own_entries x) k of None \<Rightarrow> JUndefined | Some v \<Rightarrow> v))"

text \<open>\<open>a || b\<close> on values.\<close>
definition or_else :: "json \<Rightarrow> json \<Rightarrow> json" where
  "or_else a b = (if truthy a then a else b)"

text \<open>
  An array index is a canonical numeric string below \<open>2^32 - 1\<close>; such keys are enumerated
  first, in ascending order, the other keys follow in creation order.
\<close>
definition is_array_index :: "string \<Rightarrow> bool" where
  "is_array_index k = (numeric_identifier k \<and> digits_val k < 4294967295)"

fun insert_index :: "string \<Rightarrow> 'a \<Rightarrow> (string \<times> 'a) list \<Rightarrow> (string \<times> 'a) list" where
  "insert_index k v [] = [(k, v)]"
| "insert_index k v ((k', v') # es) =
     (if is_array_index k' \<and> digits_val k' < digits_val k
      then (k', v') # insert_index k v es
      else (k, v) # (k', v') # es)"

text \<open>
  Creation or update of the own property \<open>k\<close> of an object, as object spread and an
  assignment to a key other than \<open>__proto__\<close> do it.
\<close>
definition obj_set :: "(string \<times> 'a) list \<Rightarrow> string \<Rightarrow> 'a \<Rightarrow> (string \<times> 'a) list" where
  "obj_set es k v =
     (if map_of es k \<noteq> None then map (\<lambda>(k', v'). (k', if k' = k then v else v')) es
      else if is_array_index k then insert_index k v es
      else es @ [(k, v)])"

text \<open>
  The assignment \<open>o[k] = v\<close> of an object \<open>v\<close> on an object created by \<open>{}\<close>: the key
  \<open>__proto__\<close> is an accessor inherited from \<open>Object.prototype\<close>, and assigning to it
  replaces the prototype of \<open>o\<close> without creating a property.
\<close>
definition obj_put :: "(string \<times> 'a) list \<Rightarrow> string \<Rightarrow> 'a \<Rightarrow> (string \<times> 'a) list" where
  "obj_put es k v = (if k = ''__proto__'' then es else obj_set es k v)"

text \<open>The property names that every object inherits from \<open>Object.prototype\<close>.\<close>
definition object_prototype_names :: "string list" where
  "object_prototype_names =
     [''constructor'', ''__defineGetter__'', ''__defineSetter__'', ''hasOwnProperty'',
      ''__lookupGetter__'', ''__lookupSetter__'', ''isPrototypeOf'', ''propertyIsEnumerable'',
      ''toString'', ''valueOf'', ''__proto__'', ''toLocaleString'']"

definition obj_assign :: "(string \<times> 'a) list \<Rightarrow> (string \<times> 'a) list \<Rightarrow> (string \<times> 'a) list" where
  "obj_assign es new = foldl (\<lambda>acc (k, v). obj_set acc k v) es new"

text \<open>
  The object literal \<open>{ ...a, ...b }\<close>: the own properties of \<open>a\<close>, then those of \<open>b\<close>;
  \<open>null\<close> and \<open>undefined\<close> contribute nothing.
\<close>
definition obj_spread :: "json \<Rightarrow> json \<Rightarrow> (string \<times> json) list" where
  "obj_spread a b = obj_assign (obj_assign [] (own_entries a)) (own_entries b)"

text \<open>
  The method call \<open>x.toString()\<close> on a value that is not \<open>null\<close> or \<open>undefined\<close>, and the
  conversion of array elements by \<open>join\<close>.  An own property named \<open>toString\<close> of a
  JSON object is not callable.
\<close>
fun js_toString :: "json \<Rightarrow> js_error + string"
  and join_elements :: "json list \<Rightarrow> js_error + string list" where
  "js_toString JUndefined = Inl (TypeError ''Cannot read properties of undefined (reading 'toString')'')"
| "js_toString JNull = Inl (TypeError ''Cannot read properties of null (reading 'toString')'')"
| "js_toString (JBool b) = Inr (if b then ''true'' else ''false'')"
| "js_toString (JNum n) = Inr (show_int n)"
| "js_toString (JStr s) = Inr s"
| "js_toString (JArr xs) =
     (case join_elements xs of Inl e \<Rightarrow> Inl e | Inr ss \<Rightarrow> Inr (join '','' ss))"
| "js_toString (JObj es) =
     (if map_of es ''toString'' \<noteq> None then Inl (TypeError ''toString is not a function'')
      else Inr ''[object Object]'')"
| "join_elements [] = Inr []"
| "join_elements (x # xs) =
     (case (if nullish x then Inr [] else js_toString x) of
        Inl e \<Rightarrow> Inl e
      | Inr s \<Rightarrow> (case join_elements xs of Inl e \<Rightarrow> Inl e | Inr ss \<Rightarrow> Inr (s # ss)))"

text \<open>\<open>s.toLowerCase()\<close> on ASCII letters.\<close>
definition toLowerCase :: "string \<Rightarrow> string" where
  "toLowerCase s =
     map (\<lambda>c. if 65 \<le> (of_char c :: nat) \<and> (of_char c :: nat) \<le> 90
               then char_of ((of_char c :: nat) + 32) else c) s"

section \<open>Data model of the service\<close>

datatype severity = Critical | High | Moderate | Low | Unknown

text \<open>
  The fields copied from untyped input (\<open>version\<close>, \<open>description\<close>, \<open>fixedIn\<close>) hold
  whatever value the input had.
\<close>
record Vulnerability =
  v_id :: string
  v_package :: string
  v_version :: json
  v_severity :: severity
  v_description :: json
  v_fixedIn :: json

record OutdatedPackage =
  o_package :: string
  o_current :: string
  o_latest :: string
  o_type :: update_type

record NpmOutdatedInfo =
  oi_current :: string
  oi_wanted :: string
  oi_latest :: string
  oi_location :: string

record Summary =
  s_critical :: int
  s_high :: int
  s_moderate :: int
  s_low :: int
  s_outdated :: int
  s_totalDeps :: int
  s_totalDevDeps :: int

record DependencyReport =
  r_dependencies :: json
  r_devDependencies :: json
  r_healthScore :: int
  r_outdated :: "OutdatedPackage list"
  r_summary :: Summary
  r_totalDependencies :: int
  r_vulnerabilities :: "Vulnerability list"

text \<open>
  What the quality-signal source answered for a package, as the service reads it:
  \<open>score.detail.quality\<close> and \<open>score.detail.maintenance\<close> as numbers (\<open>None\<close> when the
  path is absent), and whether \<open>collected.metadata.hasVulnerabilities\<close> is truthy.
\<close>
record npms_data =
  quality :: "rat option"
  maintenance :: "rat option"
  hasVulnerabilities :: bool

text \<open>
  The world outside the service during one run: the answer of the registry for each package
  name (a rejection or the parsed document) and the time at which it arrives, the same for
  the quality-signal source (time counted from the request), what \<open>npm audit --json\<close>
  printed (\<open>None\<close> when nothing parsable), and the successive readings of \<open>Date.now()\<close>.
  Every request is assumed to settle.
\<close>
record env =
  registry :: "string \<Rightarrow> js_error + json"
  registry_done :: "string \<Rightarrow> nat"
  npms :: "string \<Rightarrow> js_error + npms_data"
  npms_done :: "string \<Rightarrow> nat"
  npm_audit_output :: "json option"
  clock :: "nat \<Rightarrow> int"

section \<open>Outdated packages\<close>

text \<open>\<open>extractVersionFromRange(range as string)\<close> on an untyped manifest value.\<close>
definition extract_from_value :: "json \<Rightarrow> js_error + string option" where
  "extract_from_value rng =
     (case rng of
        JStr r \<Rightarrow> Inr (extractVersionFromRange r)
      | _ \<Rightarrow> if nullish rng
             then Inl (TypeError (''Cannot read properties of '' @ nullish_name rng
                                  @ '' (reading 'replace')''))
             else Inl (TypeError ''range.replace is not a function''))"

text \<open>\<open>semver.gt(latest, current)\<close> with an untyped first argument.\<close>
definition gt_value :: "json \<Rightarrow> string \<Rightarrow> js_error + bool" where
  "gt_value latest current =
     (case latest of
        JStr l \<Rightarrow> semver_gt l current
      | _ \<Rightarrow> Inl (TypeError ''Invalid version. Must be a string.''))"

definition string_of :: "json \<Rightarrow> string" where
  "string_of j = (case j of JStr s \<Rightarrow> s | _ \<Rightarrow> [])"

text \<open>
  The body of the \<open>try\<close> block that \<open>getOutdatedFast\<close> runs for one dependency; an entry
  is recorded when \<open>current && latest && semver.gt(latest, current)\<close>.
\<close>
definition outdated_info :: "env \<Rightarrow> string \<Rightarrow> json \<Rightarrow> js_error + NpmOutdatedInfo option" where
  "outdated_info e name rng =
     bindE (registry e name) (\<lambda>info.
     bindE (get_prop info ''dist-tags'') (\<lambda>tags.
     let latest = get_opt tags ''latest'' in
     bindE (extract_from_value rng) (\<lambda>current.
       case current of
         None \<Rightarrow> Inr None
       | Some cur \<Rightarrow>
           if \<not> truthy latest then Inr None
           else bindE (gt_value latest cur) (\<lambda>newer.
                  if newer
                  then Inr (Some \<lparr>oi_current = cur, oi_wanted = string_of latest,
                                  oi_latest = string_of latest, oi_location = []\<rparr>)
                  else Inr None))))"

text \<open>
  The entry is stored by \<open>outdated[name] = {...}\<close>; the \<open>catch\<close> of the block skips the
  package.
\<close>
definition outdated_step ::
  "env \<Rightarrow> (string \<times> NpmOutdatedInfo) list \<Rightarrow> string \<times> json \<Rightarrow> (string \<times> NpmOutdatedInfo) list" where
  "outdated_step e outdated entry =
     (case outdated_info e (fst entry) (snd entry) of
        Inr (Some info) \<Rightarrow> obj_put outdated (fst entry) info
      | _ \<Rightarrow> outdated)"

text \<open>
  \<open>getOutdatedFast\<close>: the merged dependencies are looked up concurrently, and each answer
  is handled when it arrives; the promise rejects when the manifest is \<open>null\<close> or
  \<open>undefined\<close>.
\<close>
definition getOutdatedFast :: "env \<Rightarrow> json \<Rightarrow> js_error + (string \<times> NpmOutdatedInfo) list" where
  "getOutdatedFast e packageJson =
     bindE (get_prop packageJson ''dependencies'') (\<lambda>dependencies.
     bindE (get_prop packageJson ''devDependencies'') (\<lambda>devDependencies.
       let deps = obj_spread dependencies devDependencies
       in Inr (foldl (outdated_step e) []
                 (sort_key (\<lambda>entry. registry_done e (fst entry)) deps))))"

definition buildOutdatedList :: "(string \<times> NpmOutdatedInfo) list \<Rightarrow> OutdatedPackage list" where
  "buildOutdatedList npmOutdated =
     concat (map (\<lambda>(pkgName, pkgInfo).
        if semver_valid (oi_current pkgInfo) = None \<or> semver_valid (oi_latest pkgInfo) = None
        then []
        else [\<lparr>o_package = pkgName, o_current = oi_current pkgInfo,
               o_latest = oi_latest pkgInfo,
               o_type = determineUpdateType (oi_current pkgInfo) (oi_latest pkgInfo)\<rparr>])
      npmOutdated)"

section \<open>Vulnerability processing\<close>

text \<open>\<open>normalizeSeverity\<close>: \<open>toLowerCase\<close> exists on strings only.\<close>
definition normalizeSeverity :: "json \<Rightarrow> js_error + severity" where
  "normalizeSeverity sev =
     (if \<not> truthy sev then Inr Unknown
      else case sev of
        JStr s \<Rightarrow>
          (let normalized = toLowerCase s in
           Inr (if normalized = ''critical'' then Critical
                else if normalized = ''high'' then High
                else if normalized = ''moderate'' then Moderate
                else if normalized = ''low'' then Low
                else Unknown))
      | _ \<Rightarrow> Inl (TypeError ''severity.toLowerCase is not a function''))"

text \<open>
  The callback of \<open>vulnInfo.via.forEach\<close>.  It returns the entry pushed, if any, and the
  number of \<open>Date.now()\<close> readings made so far; \<open>via.source?.toString()\<close> that is
  \<open>undefined\<close> or empty gives way to the synthesized id.
\<close>
definition via_callback ::
  "(nat \<Rightarrow> int) \<Rightarrow> string \<Rightarrow> json \<Rightarrow> json \<Rightarrow> nat \<Rightarrow> js_error + (Vulnerability option \<times> nat)" where
  "via_callback now pkg vulnInfo via ticks =
     (if \<not> typeof_object via then Inr (None, ticks)
      else
        bindE (get_prop via ''source'') (\<lambda>source.
        bindE (get_prop via ''title'') (\<lambda>title.
          if \<not> (truthy source \<or> truthy title) then Inr (None, ticks)
          else
            bindE (if nullish source then Inr [] else js_toString source) (\<lambda>src.
            let ident = (if src \<noteq> [] then src
                         else ''vuln-'' @ pkg @ ''-'' @ show_int (now ticks));
                ticks' = (if src \<noteq> [] then ticks else Suc ticks)
            in
            bindE (get_prop via ''range'') (\<lambda>rng.
            bindE (get_prop via ''severity'') (\<lambda>sev.
            bindE (normalizeSeverity sev) (\<lambda>severity.
            bindE (get_prop vulnInfo ''fixAvailable'') (\<lambda>fixAvailable.
              Inr (Some \<lparr>v_id = ident, v_package = pkg,
                         v_version = or_else rng (JStr ''unknown''),
                         v_severity = severity,
                         v_description = or_else title (JStr ''No description available''),
                         v_fixedIn = or_else (get_opt fixAvailable ''version'')
                                       (JStr ''Check npm registry'')\<rparr>,
                   ticks')))))))))"

text \<open>
  The loops run inside one \<open>try\<close> block: an error ends them, and the entries pushed before
  it stay in the list.  A loop returns the list, the readings made and the error, if any.
\<close>
fun via_loop ::
  "(nat \<Rightarrow> int) \<Rightarrow> string \<Rightarrow> json \<Rightarrow> json list \<Rightarrow> Vulnerability list \<times> nat
     \<Rightarrow> (Vulnerability list \<times> nat) \<times> js_error option" where
  "via_loop now pkg vulnInfo [] st = (st, None)"
| "via_loop now pkg vulnInfo (via # rest) st =
     (case via_callback now pkg vulnInfo via (snd st) of
        Inl err \<Rightarrow> (st, Some err)
      | Inr (None, ticks) \<Rightarrow> via_loop now pkg vulnInfo rest (fst st, ticks)
      | Inr (Some v, ticks) \<Rightarrow> via_loop now pkg vulnInfo rest (fst st @ [v], ticks))"

definition package_step ::
  "(nat \<Rightarrow> int) \<Rightarrow> string \<times> json \<Rightarrow> Vulnerability list \<times> nat
     \<Rightarrow> (Vulnerability list \<times> nat) \<times> js_error option" where
  "package_step now entry st =
     (case get_prop (snd entry) ''via'' of
        Inl err \<Rightarrow> (st, Some err)
      | Inr via \<Rightarrow>
          (case via of
             JArr vias \<Rightarrow> via_loop now (fst entry) (snd entry) vias st
           | _ \<Rightarrow> (st, None)))"

fun package_loop ::
  "(nat \<Rightarrow> int) \<Rightarrow> (string \<times> json) list \<Rightarrow> Vulnerability list \<times> nat
     \<Rightarrow> (Vulnerability list \<times> nat) \<times> js_error option" where
  "package_loop now [] st = (st, None)"
| "package_loop now (entry # rest) st =
     (case package_step now entry st of
        (st', None) \<Rightarrow> package_loop now rest st'
      | (st', Some err) \<Rightarrow> (st', Some err))"

definition process_run ::
  "(nat \<Rightarrow> int) \<Rightarrow> json \<Rightarrow> (Vulnerability list \<times> nat) \<times> js_error option" where
  "process_run now npmAudit =
     (case get_prop npmAudit ''vulnerabilities'' of
        Inl err \<Rightarrow> (([], 0), Some err)
      | Inr vulns \<Rightarrow>
          if truthy vulns then package_loop now (own_entries vulns) ([], 0)
          else (([], 0), None))"

text \<open>\<open>processVulnerabilities\<close>: the list, whether or not an error was caught.\<close>
definition processVulnerabilities :: "(nat \<Rightarrow> int) \<Rightarrow> json \<Rightarrow> Vulnerability list" where
  "processVulnerabilities now npmAudit = fst (fst (process_run now npmAudit))"

section \<open>Health score\<close>

text \<open>\<open>Math.round\<close> on a number that holds an integer.\<close>
definition Math_round :: "int \<Rightarrow> int" where
  "Math_round x = x"

text \<open>The callback of \<open>report.outdated.forEach\<close>, on the running score.\<close>
definition outdated_penalty :: "int \<Rightarrow> OutdatedPackage \<Rightarrow> int" where
  "outdated_penalty score pkg =
     (let distance = calculateVersionDistance (o_current pkg) (o_latest pkg) in
      if o_type pkg = Major then js_sub score (js_mul (majorVersionsBehind distance) 5)
      else if o_type pkg = Minor then js_sub score (js_mul (minorVersionsBehind distance) 2)
      else if o_type pkg = Patch then js_sub score (js_mul (patchVersionsBehind distance) 1)
      else score)"

definition calculateHealthScore :: "DependencyReport \<Rightarrow> int" where
  "calculateHealthScore report =
     (let score = 100;
          score = js_sub score (js_mul (s_critical (r_summary report)) 15);
          score = js_sub score (js_mul (s_high (r_summary report)) 10);
          score = js_sub score (js_mul (s_moderate (r_summary report)) 5);
          score = js_sub score (js_mul (s_low (r_summary report)) 2);
          score = foldl outdated_penalty score (r_outdated report)
      in max 0 (min 100 (Math_round score)))"

section \<open>The dependency report\<close>

definition empty_audit :: json where
  "empty_audit = JObj [(''vulnerabilities'', JObj [])]"

text \<open>\<open>getNpmAudit\<close>: the parsed output of the audit command, or the empty mapping.\<close>
definition getNpmAudit :: "env \<Rightarrow> json" where
  "getNpmAudit e = (case npm_audit_output e of None \<Rightarrow> empty_audit | Some j \<Rightarrow> j)"

definition count_severity :: "severity \<Rightarrow> Vulnerability list \<Rightarrow> int" where
  "count_severity sev vs = int (length (filter (\<lambda>v. v_severity v = sev) vs))"

definition report_body :: "env \<Rightarrow> json \<Rightarrow> js_error + DependencyReport" where
  "report_body e packageJson =
     bindE (getOutdatedFast e packageJson) (\<lambda>npmOutdated.
     let npmAudit = getNpmAudit e in
     bindE (get_prop packageJson ''dependencies'') (\<lambda>dependencies.
     bindE (get_prop packageJson ''devDependencies'') (\<lambda>devDependencies.
     let report =
           \<lparr>r_dependencies = or_else dependencies (JObj []),
            r_devDependencies = or_else devDependencies (JObj []),
            r_healthScore = 100,
            r_outdated = buildOutdatedList npmOutdated,
            r_summary =
              \<lparr>s_critical = 0, s_high = 0, s_moderate = 0, s_low = 0, s_outdated = 0,
               s_totalDeps = int (length (own_entries (or_else dependencies (JObj [])))),
               s_totalDevDeps = int (length (own_entries (or_else devDependencies (JObj []))))\<rparr>,
            r_totalDependencies = 0,
            r_vulnerabilities = []\<rparr>;
         report = report\<lparr>r_vulnerabilities := processVulnerabilities (clock e) npmAudit\<rparr>;
         report = report\<lparr>r_summary := (r_summary report)
                    \<lparr>s_critical := count_severity Critical (r_vulnerabilities report),
                     s_high := count_severity High (r_vulnerabilities report),
                     s_moderate := count_severity Moderate (r_vulnerabilities report),
                     s_low := count_severity Low (r_vulnerabilities report),
                     s_outdated := int (length (r_outdated report))\<rparr>\<rparr>;
         report = report\<lparr>r_totalDependencies :=
                    js_add (s_totalDeps (r_summary report)) (s_totalDevDeps (r_summary report))\<rparr>;
         report = report\<lparr>r_healthScore := calculateHealthScore report\<rparr>
     in Inr report)))"

text \<open>
  \<open>generateDependencyReport\<close>: whatever the body throws is rethrown as an \<open>Error\<close> whose
  message names the operation.
\<close>
definition generateDependencyReport :: "env \<Rightarrow> json \<Rightarrow> js_error + DependencyReport" where
  "generateDependencyReport e packageJson =
     (case report_body e packageJson of
        Inl err \<Rightarrow> Inl (Error (''Failed to generate dependency report: '' @ error_message err))
      | Inr report \<Rightarrow> Inr report)"

section \<open>The vulnerability report\<close>

text \<open>
  The entries of the \<open>vulnerabilities\<close> object that \<open>getNpmAuditFast\<close> builds: the \<open>via\<close>
  array and the version under \<open>fixAvailable\<close>.
\<close>
record audit_entry =
  ae_via :: "json list"
  ae_fix_version :: json

definition entry_json :: "audit_entry \<Rightarrow> json" where
  "entry_json a =
     JObj [(''via'', JArr (ae_via a)),
           (''fixAvailable'', JObj [(''version'', ae_fix_version a)])]"

definition via_json :: "string \<Rightarrow> json \<Rightarrow> string \<Rightarrow> json \<Rightarrow> json" where
  "via_json source title sev rng =
     JObj [(''source'', JStr source), (''title'', title), (''severity'', JStr sev),
           (''range'', rng)]"

text \<open>
  The first part of the callback of \<open>getNpmAuditFast\<close>, up to the call of
  \<open>checkNpmsIoSecurity\<close>: \<open>Inl\<close> when an error sends it to the \<open>catch\<close>, \<open>Inr None\<close> when
  it returns for want of a version, otherwise the entry assigned for a deprecated version
  (if any) and the version handed on.
\<close>
definition registry_phase ::
  "env \<Rightarrow> string \<Rightarrow> json \<Rightarrow> js_error + (audit_entry option \<times> string) option" where
  "registry_phase e name version =
     bindE (registry e name) (\<lambda>pkgInfo.
     bindE (extract_from_value version) (\<lambda>currentVersion.
       case currentVersion of
         None \<Rightarrow> Inr None
       | Some cur \<Rightarrow>
           bindE (get_prop pkgInfo ''versions'') (\<lambda>versions.
             let versionData = get_opt versions cur;
                 deprecated = get_opt versionData ''deprecated''
             in if truthy versions \<and> truthy versionData \<and> truthy deprecated
                then Inr (Some (Some
                       \<lparr>ae_via = [via_json (''npm-deprecated-'' @ name) deprecated
                                    ''moderate'' version],
                        ae_fix_version =
                          or_else (get_opt (get_opt pkgInfo ''dist-tags'') ''latest'')
                            (JStr cur)\<rparr>, cur))
                else Inr (Some (None, cur)))))"

text \<open>The literal \<open>0.3\<close> is the double nearest to three tenths.\<close>
definition js_0_3 :: rat where
  "js_0_3 = 5404319552844595 / 18014398509481984"

definition below :: "rat option \<Rightarrow> rat \<Rightarrow> bool" where
  "below x bound = (case x of None \<Rightarrow> False | Some q \<Rightarrow> q < bound)"

text \<open>
  The object \<open>vulnerabilities\<close> that \<open>getNpmAuditFast\<close> fills, created by \<open>{}\<close>: its own
  properties and, once an entry has been assigned to the key \<open>__proto__\<close>, that entry,
  which is then the prototype of the object.
\<close>
record audit_object =
  ao_own :: "(string \<times> audit_entry) list"
  ao_proto :: "audit_entry option"

definition empty_object :: audit_object where
  "empty_object = \<lparr>ao_own = [], ao_proto = None\<rparr>"

text \<open>
  What \<open>vulnerabilities[name]\<close> evaluates to: an own entry; the entry that is the
  prototype (for the name \<open>__proto__\<close>); another inherited value, which is truthy and has
  no property \<open>via\<close> (a method of \<open>Object.prototype\<close>, that object itself, or the \<open>via\<close>
  array and the \<open>fixAvailable\<close> object of an entry that is the prototype); or \<open>undefined\<close>.
\<close>
datatype looked_up = Own audit_entry | Prototype audit_entry | Inherited | Absent

definition lookup_entry :: "audit_object \<Rightarrow> string \<Rightarrow> looked_up" where
  "lookup_entry vulns name =
     (case map_of (ao_own vulns) name of
        Some a \<Rightarrow> Own a
      | None \<Rightarrow>
          if name = ''__proto__''
          then (case ao_proto vulns of Some a \<Rightarrow> Prototype a | None \<Rightarrow> Inherited)
          else if name \<in> set object_prototype_names then Inherited
          else if ao_proto vulns \<noteq> None \<and> (name = ''via'' \<or> name = ''fixAvailable'')
          then Inherited
          else Absent)"

text \<open>The assignment \<open>vulnerabilities[name] = {...}\<close>.\<close>
definition assign_entry :: "audit_object \<Rightarrow> string \<Rightarrow> audit_entry \<Rightarrow> audit_object" where
  "assign_entry vulns name a =
     (if name = ''__proto__'' then vulns\<lparr>ao_proto := Some a\<rparr>
      else vulns\<lparr>ao_own := obj_set (ao_own vulns) name a\<rparr>)"

text \<open>
  The statements \<open>if (!vulnerabilities[name]) vulnerabilities[name] = {via: [], ...}\<close> and
  \<open>vulnerabilities[name].via.push(via)\<close>.
\<close>
definition push_via :: "audit_object \<Rightarrow> string \<Rightarrow> json \<Rightarrow> js_error + audit_object" where
  "push_via vulns name via =
     (let vulns' = (if lookup_entry vulns name = Absent
                    then assign_entry vulns name
                           \<lparr>ae_via = [], ae_fix_version = JStr ''latest''\<rparr>
                    else vulns)
      in case lookup_entry vulns' name of
           Own entry \<Rightarrow>
             Inr (vulns'\<lparr>ao_own :=
                    map (\<lambda>(k, a). (k, if k = name then a\<lparr>ae_via := ae_via a @ [via]\<rparr> else a))
                      (ao_own vulns')\<rparr>)
         | Prototype entry \<Rightarrow>
             Inr (vulns'\<lparr>ao_proto := Some (entry\<lparr>ae_via := ae_via entry @ [via]\<rparr>)\<rparr>)
         | Inherited \<Rightarrow>
             Inl (TypeError ''Cannot read properties of undefined (reading 'push')'')
         | Absent \<Rightarrow>
             Inl (TypeError ''Cannot read properties of undefined (reading 'via')''))"

text \<open>
  \<open>checkNpmsIoSecurity\<close>, from the arrival of the answer on; a rejected request changes
  nothing, and an error thrown by a push ends the function.
\<close>
definition checkNpmsIoSecurity ::
  "env \<Rightarrow> string \<Rightarrow> string \<Rightarrow> audit_object \<Rightarrow> audit_object" where
  "checkNpmsIoSecurity e packageName version vulns =
     (case npms e packageName of
        Inl err \<Rightarrow> vulns
      | Inr npmsData \<Rightarrow>
          (case (if below (quality npmsData) (1 / 2) \<or> below (maintenance npmsData) (1 / 2)
                 then push_via vulns packageName
                        (via_json ''npms-quality-check''
                           (JStr ''Low quality/maintenance score detected'')
                           (if below (quality npmsData) js_0_3 then ''high'' else ''moderate'')
                           (JStr version))
                 else Inr vulns) of
             Inl err \<Rightarrow> vulns
           | Inr vulns1 \<Rightarrow>
               (case (if hasVulnerabilities npmsData
                      then push_via vulns1 packageName
                             (via_json ''npms-vulnerability-flag''
                                (JStr ''Package flagged with known vulnerabilities'') ''high''
                                (JStr version))
                      else Inr vulns1) of
                  Inl err \<Rightarrow> vulns1
                | Inr vulns2 \<Rightarrow> vulns2)))"

text \<open>
  What happens to the shared object, in the order of the arrivals: the assignment for a
  deprecated version when the registry answers, the pushes when the quality-signal source
  answers.
\<close>
datatype audit_event = Assigned string audit_entry | NpmsAnswered string string

definition package_events :: "env \<Rightarrow> string \<times> json \<Rightarrow> (nat \<times> audit_event) list" where
  "package_events e entry =
     (case registry_phase e (fst entry) (snd entry) of
        Inr (Some (assigned, cur)) \<Rightarrow>
          (case assigned of
             None \<Rightarrow> []
           | Some a \<Rightarrow> [(registry_done e (fst entry), Assigned (fst entry) a)])
          @ [(registry_done e (fst entry) + npms_done e (fst entry),
              NpmsAnswered (fst entry) cur)]
      | _ \<Rightarrow> [])"

fun audit_step :: "env \<Rightarrow> audit_object \<Rightarrow> nat \<times> audit_event \<Rightarrow> audit_object" where
  "audit_step e vulns (t, Assigned name a) = assign_entry vulns name a"
| "audit_step e vulns (t, NpmsAnswered name cur) = checkNpmsIoSecurity e name cur vulns"

text \<open>
  \<open>getNpmAuditFast\<close>: the empty mapping when the manifest cannot be read; otherwise the
  own properties of the object, as \<open>Object.entries\<close> will enumerate them.
\<close>
definition getNpmAuditFast :: "env \<Rightarrow> json \<Rightarrow> json" where
  "getNpmAuditFast e packageJson =
     (case bindE (get_prop packageJson ''dependencies'') (\<lambda>dependencies.
           bindE (get_prop packageJson ''devDependencies'') (\<lambda>devDependencies.
             let deps = obj_spread dependencies devDependencies;
                 events = sort_key fst (concat (map (package_events e) deps));
                 vulns = foldl (audit_step e) empty_object events
             in Inr (JObj [(''vulnerabilities'',
                            JObj (map (\<lambda>(k, a). (k, entry_json a)) (ao_own vulns)))])))
      of Inl err \<Rightarrow> empty_audit
       | Inr audit \<Rightarrow> audit)"

text \<open>
  \<open>generateVulnerabilityReport\<close>: the \<open>try\<close> block reads \<open>packageJson.name\<close> for the log,
  fetches and processes; the \<open>catch\<close> answers with the empty list.
\<close>
definition generateVulnerabilityReport :: "env \<Rightarrow> json \<Rightarrow> js_error + Vulnerability list" where
  "generateVulnerabilityReport e packageJson =
     (case bindE (get_prop packageJson ''name'') (\<lambda>name.
             Inr (processVulnerabilities (clock e) (getNpmAuditFast e packageJson)))
      of Inl err \<Rightarrow> Inr []
       | Inr vulnerabilities \<Rightarrow> Inr vulnerabilities)"

section \<open>Sorting the outdated list\<close>

text \<open>
  Arrays are objects on the heap: a report refers to its \<open>outdated\<close> array by address, and
  \<open>Array.prototype.sort\<close> reorders the array it is called on and returns it.
\<close>
type_synonym addr = nat
type_synonym store = "addr \<Rightarrow> OutdatedPackage list"

text \<open>Stable sorting with a comparison, by insertion.\<close>
fun insert_by :: "('a \<Rightarrow> 'a \<Rightarrow> bool) \<Rightarrow> 'a \<Rightarrow> 'a list \<Rightarrow> 'a list" where
  "insert_by le x [] = [x]"
| "insert_by le x (y # ys) = (if le x y then x # y # ys else y # insert_by le x ys)"

definition sort_by :: "('a \<Rightarrow> 'a \<Rightarrow> bool) \<Rightarrow> 'a list \<Rightarrow> 'a list" where
  "sort_by le xs = foldr (insert_by le) xs []"

text \<open>The comparison of \<open>sortOutdatedByPriority\<close>: \<open>semver.compare(a.current, b.current) \<le> 0\<close>.\<close>
definition current_le :: "OutdatedPackage \<Rightarrow> OutdatedPackage \<Rightarrow> bool" where
  "current_le a b =
     (case semver_compare (o_current a) (o_current b) of Inl err \<Rightarrow> False | Inr c \<Rightarrow> c \<le> 0)"

text \<open>
  \<open>sortOutdatedByPriority\<close>: the comparison throws a \<open>TypeError\<close> (\<open>Invalid Version\<close>) on
  a version that does not parse, and every entry is compared as soon as there are two;
  \<open>None\<close> is that outcome.  Otherwise the array at the given address is sorted in place
  and its address returned.  Sorting is stable; where the comparison is not a total
  preorder of the entries, the order that results is the one of insertion here and is left
  open by the language.
\<close>
definition sortOutdatedByPriority :: "store \<Rightarrow> addr \<Rightarrow> (store \<times> addr) option" where
  "sortOutdatedByPriority h outdatedList =
     (if 2 \<le> length (h outdatedList)
         \<and> list_ex (\<lambda>p. semver_parse (o_current p) = None) (h outdatedList)
      then None
      else Some (h(outdatedList := sort_by current_le (h outdatedList)), outdatedList))"

section \<open>Sample data\<close>

text \<open>A world in which every request fails and the audit command prints nothing.\<close>
definition clock_at :: "int \<Rightarrow> nat \<Rightarrow> int" where
  "clock_at t n = t"

definition offline :: "string \<Rightarrow> js_error + 'a" where
  "offline name = Inl (Error ''offline'')"

definition no_delay :: "string \<Rightarrow> nat" where
  "no_delay name = 0"

definition quiet_env :: env where
  "quiet_env =
     \<lparr>registry = offline, registry_done = no_delay, npms = offline, npms_done = no_delay,
      npm_audit_output = None, clock = clock_at 0\<rparr>"

definition empty_report :: DependencyReport where
  "empty_report =
     \<lparr>r_dependencies = JObj [], r_devDependencies = JObj [], r_healthScore = 100,
      r_outdated = [],
      r_summary = \<lparr>s_critical = 0, s_high = 0, s_moderate = 0, s_low = 0, s_outdated = 0,
                   s_totalDeps = 0, s_totalDevDeps = 0\<rparr>,
      r_totalDependencies = 0, r_vulnerabilities = []\<rparr>"

section \<open>The rules as the specification words them\<close>









text \<open>A registry that knows three packages, and an audit with two advisories.\<close>
definition sample_registry :: "string \<Rightarrow> js_error + json" where
  "sample_registry name =
     (if name = ''a''
      then Inr (JObj [(''dist-tags'', JObj [(''latest'', JStr ''3.1.0'')]),
                      (''versions'', JObj [(''1.0.0'',
                         JObj [(''deprecated'', JStr ''no longer maintained'')])])])
      else if name = ''b''
      then Inr (JObj [(''dist-tags'', JObj [(''latest'', JStr ''1.0.4'')])])
      else if name = ''c''
      then Inr (JObj [(''dist-tags'', JObj [(''latest'', JStr ''9.0.0'')])])
      else Inl (Error ''not found''))"

definition sample_audit :: json where
  "sample_audit =
     JObj [(''vulnerabilities'',
       JObj [(''foo'',
         JObj [(''via'',
                JArr [JObj [(''source'', JNum 1001), (''title'', JStr ''Prototype pollution''),
                            (''severity'', JStr ''critical''), (''range'', JStr ''<2.0.0'')],
                      JStr ''bar'',
                      JObj [(''source'', JNum 1002), (''title'', JStr ''ReDoS''),
                            (''severity'', JStr ''high'')]]),
               (''fixAvailable'', JBool True)])])]"

text \<open>The quality-signal source knows one of them, and rates it poorly.\<close>
definition sample_npms :: "string \<Rightarrow> js_error + npms_data" where
  "sample_npms name =
     (if name = ''b''
      then Inr \<lparr>quality = Some (1 / 4), maintenance = Some 1, hasVulnerabilities = False\<rparr>
      else Inl (Error ''not found''))"

definition sample_env :: env where
  "sample_env =
     \<lparr>registry = sample_registry, registry_done = no_delay, npms = sample_npms,
      npms_done = no_delay, npm_audit_output = Some sample_audit, clock = clock_at 0\<rparr>"

definition sample_manifest :: json where
  "sample_manifest =
     JObj [(''name'', JStr ''demo''),
           (''dependencies'', JObj [(''a'', JStr ''^1.0.0''), (''b'', JStr ''>=1.0.0 <2.0.0'')]),
           (''devDependencies'', JObj [(''b'', JStr ''~1.0.1''), (''c'', JStr ''1.x'')])]"

definition sample_vulnerabilities :: "Vulnerability list" where
  "sample_vulnerabilities =
     [\<lparr>v_id = ''1001'', v_package = ''foo'', v_version = JStr ''<2.0.0'',
       v_severity = Critical, v_description = JStr ''Prototype pollution'',
       v_fixedIn = JStr ''Check npm registry''\<rparr>,
      \<lparr>v_id = ''1002'', v_package = ''foo'', v_version = JStr ''unknown'',
       v_severity = High, v_description = JStr ''ReDoS'',
       v_fixedIn = JStr ''Check npm registry''\<rparr>]"


text \<open>The report of the same audit for a manifest without dependencies.\<close>
definition two_vulnerability_report :: DependencyReport where
  "two_vulnerability_report =
     \<lparr>r_dependencies = JObj [], r_devDependencies = JObj [], r_healthScore = 75,
      r_outdated = [],
      r_summary = \<lparr>s_critical = 1, s_high = 1, s_moderate = 0, s_low = 0, s_outdated = 0,
                   s_totalDeps = 0, s_totalDevDeps = 0\<rparr>,
      r_totalDependencies = 0,
      r_vulnerabilities = sample_vulnerabilities\<rparr>"


section \<open>Auxiliary notions for the vulnerability list\<close>

text \<open>
  The part of \<open>via_callback\<close> that does not read the clock: the string form of the source
  (empty when there is none) and the entry with that string as id.
\<close>
definition via_outline ::
  "string \<Rightarrow> json \<Rightarrow> json \<Rightarrow> js_error + (string \<times> Vulnerability) option" where
  "via_outline pkg vulnInfo via =
     (if \<not> typeof_object via then Inr None
      else
        bindE (get_prop via ''source'') (\<lambda>source.
        bindE (get_prop via ''title'') (\<lambda>title.
          if \<not> (truthy source \<or> truthy title) then Inr None
          else
            bindE (if nullish source then Inr [] else js_toString source) (\<lambda>src.
            bindE (get_prop via ''range'') (\<lambda>rng.
            bindE (get_prop via ''severity'') (\<lambda>sev.
            bindE (normalizeSeverity sev) (\<lambda>severity.
            bindE (get_prop vulnInfo ''fixAvailable'') (\<lambda>fixAvailable.
              Inr (Some (src,
                    \<lparr>v_id = src, v_package = pkg,
                     v_version = or_else rng (JStr ''unknown''),
                     v_severity = severity,
                     v_description = or_else title (JStr ''No description available''),
                     v_fixedIn = or_else (get_opt fixAvailable ''version'')
                                   (JStr ''Check npm registry'')\<rparr>))))))))))"

text \<open>
  An element of \<open>via\<close> that is reported (it carries a source or a title) although its
  source has no non-empty string form: its id is synthesized from the clock.
\<close>
definition unsourced :: "json \<Rightarrow> bool" where
  "unsourced via =
     (typeof_object via \<and> \<not> nullish via
      \<and> (truthy (get_opt via ''source'') \<or> truthy (get_opt via ''title''))
      \<and> (nullish (get_opt via ''source'') \<or> js_toString (get_opt via ''source'') = Inr []))"

text \<open>The string form of the source of an element, when it has one.\<close>
definition source_id :: "json \<Rightarrow> string option" where
  "source_id via =
     (if typeof_object via \<and> \<not> nullish via \<and> \<not> nullish (get_opt via ''source'')
      then (case js_toString (get_opt via ''source'') of Inl err \<Rightarrow> None | Inr s \<Rightarrow> Some s)
      else None)"

definition via_arrays :: "json \<Rightarrow> (string \<times> json list) list" where
  "via_arrays npmAudit =
     concat (map (\<lambda>(pkg, info). case get_opt info ''via'' of JArr vias \<Rightarrow> [(pkg, vias)] | _ \<Rightarrow> [])
       (own_entries (get_opt npmAudit ''vulnerabilities'')))"

text \<open>No reported element of the audit data lacks a source.\<close>
definition no_synthesized_ids :: "json \<Rightarrow> bool" where
  "no_synthesized_ids npmAudit =
     list_all (\<lambda>(pkg, vias). \<not> list_ex unsourced vias) (via_arrays npmAudit)"

text \<open>
  A value whose string form the model prints as JavaScript does: the numbers in it are
  safe integers.
\<close>
fun printable :: "json \<Rightarrow> bool" where
  "printable (JNum n) = (\<bar>n\<bar> \<le> MAX_SAFE_INTEGER)"
| "printable (JArr xs) = list_all printable xs"
| "printable j = True"

text \<open>
  The package keys are distinct and, within each package, every reported element carries a
  source, the sources are printable and they are pairwise distinct as strings.
\<close>
definition distinct_sources :: "json \<Rightarrow> bool" where
  "distinct_sources npmAudit =
     (distinct (map fst (own_entries (get_opt npmAudit ''vulnerabilities'')))
      \<and> list_all (\<lambda>(pkg, vias). \<not> list_ex unsourced vias
                     \<and> list_all (\<lambda>via. printable (get_opt via ''source'')) vias
                     \<and> distinct (List.map_filter source_id vias))
          (via_arrays npmAudit))"

definition vuln_key :: "Vulnerability \<Rightarrow> string \<times> string" where
  "vuln_key v = (v_package v, v_id v)"

text \<open>
  The entries of the list before the clock is read: an entry whose id will be synthesized
  carries the number of the reading of \<open>Date.now()\<close> that will go into it, and the empty
  string for id.
\<close>
type_synonym pending = "Vulnerability \<times> nat option"

definition resolve_id :: "(nat \<Rightarrow> int) \<Rightarrow> pending \<Rightarrow> Vulnerability" where
  "resolve_id now p =
     (case snd p of
        None \<Rightarrow> fst p
      | Some t \<Rightarrow> (fst p)\<lparr>v_id := ''vuln-'' @ v_package (fst p) @ ''-'' @ show_int (now t)\<rparr>)"

text \<open>The loops of \<open>processVulnerabilities\<close>, run without a clock.\<close>
fun via_loop_outline ::
  "string \<Rightarrow> json \<Rightarrow> json list \<Rightarrow> pending list \<times> nat
     \<Rightarrow> (pending list \<times> nat) \<times> js_error option" where
  "via_loop_outline pkg vulnInfo [] st = (st, None)"
| "via_loop_outline pkg vulnInfo (via # rest) st =
     (case via_outline pkg vulnInfo via of
        Inl err \<Rightarrow> (st, Some err)
      | Inr None \<Rightarrow> via_loop_outline pkg vulnInfo rest st
      | Inr (Some (src, v)) \<Rightarrow>
          if src \<noteq> [] then via_loop_outline pkg vulnInfo rest (fst st @ [(v, None)], snd st)
          else via_loop_outline pkg vulnInfo rest
                 (fst st @ [(v, Some (snd st))], Suc (snd st)))"

definition package_step_outline ::
  "string \<times> json \<Rightarrow> pending list \<times> nat \<Rightarrow> (pending list \<times> nat) \<times> js_error option" where
  "package_step_outline entry st =
     (case get_prop (snd entry) ''via'' of
        Inl err \<Rightarrow> (st, Some err)
      | Inr via \<Rightarrow>
          (case via of
             JArr vias \<Rightarrow> via_loop_outline (fst entry) (snd entry) vias st
           | _ \<Rightarrow> (st, None)))"

fun package_loop_outline ::
  "(string \<times> json) list \<Rightarrow> pending list \<times> nat \<Rightarrow> (pending list \<times> nat) \<times> js_error option" where
  "package_loop_outline [] st = (st, None)"
| "package_loop_outline (entry # rest) st =
     (case package_step_outline entry st of
        (st', None) \<Rightarrow> package_loop_outline rest st'
      | (st', Some err) \<Rightarrow> (st', Some err))"

definition vulnerability_outline :: "json \<Rightarrow> pending list" where
  "vulnerability_outline npmAudit =
     (case get_prop npmAudit ''vulnerabilities'' of
        Inl err \<Rightarrow> []
      | Inr vulns \<Rightarrow>
          if truthy vulns then fst (fst (package_loop_outline (own_entries vulns) ([], 0)))
          else [])"

text \<open>
  Where a pending entry comes from: an entry that keeps its id carries the string form of
  the source of the element, an entry whose id is synthesized comes from an element
  without one; the element belongs to the package of the entry.
\<close>
definition from_element :: "pending \<Rightarrow> json \<Rightarrow> bool" where
  "from_element p via =
     (case snd p of
        None \<Rightarrow> source_id via = Some (v_id (fst p)) \<and> v_id (fst p) \<noteq> []
      | Some t \<Rightarrow> unsourced via)"

definition traceable :: "json \<Rightarrow> pending \<Rightarrow> bool" where
  "traceable npmAudit p =
     list_ex (\<lambda>(pkg, vias). pkg = v_package (fst p) \<and> list_ex (from_element p) vias)
       (via_arrays npmAudit)"

text \<open>
  Audit data with the same advisory twice, with an advisory that has no source, and with
  one advisory of each kind.
\<close>
definition duplicate_audit :: json where
  "duplicate_audit =
     JObj [(''vulnerabilities'',
       JObj [(''foo'',
         JObj [(''via'',
                JArr [JObj [(''source'', JNum 1001), (''title'', JStr ''Prototype pollution''),
                            (''severity'', JStr ''high'')],
                      JObj [(''source'', JNum 1001), (''title'', JStr ''Prototype pollution''),
                            (''severity'', JStr ''high'')]])])])]"

definition unsourced_audit :: json where
  "unsourced_audit =
     JObj [(''vulnerabilities'',
       JObj [(''foo'',
         JObj [(''via'', JArr [JObj [(''title'', JStr ''Prototype pollution'')]])])])]"

definition sourced_element :: json where
  "sourced_element =
     JObj [(''source'', JNum 1001), (''title'', JStr ''Prototype pollution''),
           (''severity'', JStr ''high'')]"

definition unsourced_element :: json where
  "unsourced_element = JObj [(''title'', JStr ''ReDoS'')]"

definition mixed_audit :: json where
  "mixed_audit =
     JObj [(''vulnerabilities'',
       JObj [(''foo'', JObj [(''via'', JArr [sourced_element, unsourced_element])])])]"

definition sourced_vulnerability :: Vulnerability where
  "sourced_vulnerability =
     \<lparr>v_id = ''1001'', v_package = ''foo'', v_version = JStr ''unknown'',
      v_severity = High, v_description = JStr ''Prototype pollution'',
      v_fixedIn = JStr ''Check npm registry''\<rparr>"

definition unsourced_vulnerability :: Vulnerability where
  "unsourced_vulnerability =
     \<lparr>v_id = [], v_package = ''foo'', v_version = JStr ''unknown'',
      v_severity = Unknown, v_description = JStr ''ReDoS'',
      v_fixedIn = JStr ''Check npm registry''\<rparr>"

text \<open>The report that \<open>generateDependencyReport\<close> assembles from its parts.\<close>
definition assemble ::
  "json \<Rightarrow> json \<Rightarrow> OutdatedPackage list \<Rightarrow> Vulnerability list \<Rightarrow> DependencyReport" where
  "assemble dependencies devDependencies outdated vulnerabilities =
     (let summary =
            \<lparr>s_critical = count_severity Critical vulnerabilities,
             s_high = count_severity High vulnerabilities,
             s_moderate = count_severity Moderate vulnerabilities,
             s_low = count_severity Low vulnerabilities,
             s_outdated = int (length outdated),
             s_totalDeps = int (length (own_entries (or_else dependencies (JObj [])))),
             s_totalDevDeps = int (length (own_entries (or_else devDependencies (JObj []))))\<rparr>;
          report =
            \<lparr>r_dependencies = or_else dependencies (JObj []),
             r_devDependencies = or_else devDependencies (JObj []),
             r_healthScore = 100,
             r_outdated = outdated,
             r_summary = summary,
             r_totalDependencies = js_add (s_totalDeps summary) (s_totalDevDeps summary),
             r_vulnerabilities = vulnerabilities\<rparr>
      in report\<lparr>r_healthScore := calculateHealthScore report\<rparr>)"

text \<open>A report with another list of vulnerabilities.\<close>
definition with_vulnerabilities :: "Vulnerability list \<Rightarrow> DependencyReport \<Rightarrow> DependencyReport" where
  "with_vulnerabilities vs r = r\<lparr>r_vulnerabilities := vs\<rparr>"

section \<open>Manifests\<close>

definition manifest :: "(string \<times> json) list \<Rightarrow> (string \<times> json) list \<Rightarrow> json" where
  "manifest dependencies devDependencies =
     JObj [(''dependencies'', JObj dependencies), (''devDependencies'', JObj devDependencies)]"

text \<open>A mapping with the value of one key replaced.\<close>
definition with_range :: "string \<Rightarrow> 'a \<Rightarrow> (string \<times> 'a) list \<Rightarrow> (string \<times> 'a) list" where
  "with_range name r es = map (\<lambda>(k, v). (k, if k = name then r else v)) es"

text \<open>The range that the service works with for a package: the one of the merged mapping.\<close>
definition effective_range :: "json \<Rightarrow> string \<Rightarrow> json option" where
  "effective_range packageJson name =
     map_of (obj_spread (get_opt packageJson ''dependencies'')
               (get_opt packageJson ''devDependencies'')) name"

definition sample_dependencies :: "(string \<times> json) list" where
  "sample_dependencies = [(''a'', JStr ''^1.0.0''), (''b'', JStr ''>=1.0.0 <2.0.0'')]"

definition sample_devDependencies :: "(string \<times> json) list" where
  "sample_devDependencies = [(''b'', JStr ''~1.0.1''), (''c'', JStr ''1.x'')]"

text \<open>
  What \<open>getOutdatedFast\<close> records for a package whose range in the merged mapping is
  \<open>rng\<close>.
\<close>
definition outdated_entry_for :: "env \<Rightarrow> string \<Rightarrow> json \<Rightarrow> NpmOutdatedInfo option" where
  "outdated_entry_for e name rng =
     (if name = ''__proto__'' then None
      else case outdated_info e name rng of Inr (Some info) \<Rightarrow> Some info | _ \<Rightarrow> None)"

text \<open>
  The names that the object \<open>vulnerabilities\<close> never inherits a value for, whatever entry
  may have become its prototype.
\<close>
definition ordinary_name :: "string \<Rightarrow> bool" where
  "ordinary_name name =
     (name \<notin> set object_prototype_names \<and> name \<noteq> ''via'' \<and> name \<noteq> ''fixAvailable'')"

text \<open>The entry of a package after a push, and after \<open>checkNpmsIoSecurity\<close>.\<close>
definition pushed :: "audit_entry option \<Rightarrow> json \<Rightarrow> audit_entry" where
  "pushed entry via =
     (case entry of
        None \<Rightarrow> \<lparr>ae_via = [via], ae_fix_version = JStr ''latest''\<rparr>
      | Some a \<Rightarrow> a\<lparr>ae_via := ae_via a @ [via]\<rparr>)"

definition npms_effect ::
  "env \<Rightarrow> string \<Rightarrow> string \<Rightarrow> audit_entry option \<Rightarrow> audit_entry option" where
  "npms_effect e name version entry =
     (case npms e name of
        Inl err \<Rightarrow> entry
      | Inr npmsData \<Rightarrow>
          let entry1 =
                (if below (quality npmsData) (1 / 2) \<or> below (maintenance npmsData) (1 / 2)
                 then Some (pushed entry
                        (via_json ''npms-quality-check''
                           (JStr ''Low quality/maintenance score detected'')
                           (if below (quality npmsData) js_0_3 then ''high'' else ''moderate'')
                           (JStr version)))
                 else entry)
          in if hasVulnerabilities npmsData
             then Some (pushed entry1
                    (via_json ''npms-vulnerability-flag''
                       (JStr ''Package flagged with known vulnerabilities'') ''high''
                       (JStr version)))
             else entry1)"

text \<open>
  The entry that \<open>getNpmAuditFast\<close> builds for a package whose range in the merged mapping
  is \<open>rng\<close>, if any.
\<close>
definition audit_entry_for :: "env \<Rightarrow> string \<Rightarrow> json \<Rightarrow> audit_entry option" where
  "audit_entry_for e name rng =
     (case registry_phase e name rng of
        Inr (Some (assigned, cur)) \<Rightarrow> npms_effect e name cur assigned
      | _ \<Rightarrow> None)"

text \<open>The entry of a package in audit data.\<close>
definition reported_entry :: "json \<Rightarrow> string \<Rightarrow> json option" where
  "reported_entry npmAudit name = map_of (own_entries (get_opt npmAudit ''vulnerabilities'')) name"

text \<open>The package that an event is about, and what the event does to the entry of it.\<close>
fun event_name :: "nat \<times> audit_event \<Rightarrow> string" where
  "event_name (t, Assigned name a) = name"
| "event_name (t, NpmsAnswered name cur) = name"

fun entry_step :: "env \<Rightarrow> audit_entry option \<Rightarrow> nat \<times> audit_event \<Rightarrow> audit_entry option" where
  "entry_step e entry (t, Assigned name a) = Some a"
| "entry_step e entry (t, NpmsAnswered name cur) = npms_effect e name cur entry"

section \<open>Auxiliary notions for the order of versions\<close>

text \<open>
  Keys whose lexicographic order is the precedence of versions: a numeric identifier is
  below a non-numeric one, a version without pre-release is above its pre-releases.
\<close>
definition id_key :: "string \<Rightarrow> bool \<times> int \<times> string" where
  "id_key a = (if is_numeric a then (False, digits_val a, []) else (True, 0, a))"

definition version_key :: "SemVer \<Rightarrow> int \<times> int \<times> int \<times> bool \<times> (bool \<times> int \<times> string) list" where
  "version_key v =
     (sv_major v, sv_minor v, sv_patch v, sv_prerelease v = [], map id_key (sv_prerelease v))"

definition current_key ::
  "OutdatedPackage \<Rightarrow> int \<times> int \<times> int \<times> bool \<times> (bool \<times> int \<times> string) list" where
  "current_key p =
     (case semver_parse (o_current p) of
        None \<Rightarrow> (0, 0, 0, True, [])
      | Some v \<Rightarrow> version_key v)"

text \<open>
  The numeric pre-release identifiers of the current versions are numbers that a double
  holds exactly (every one up to \<open>2^53\<close> is).
\<close>
definition exact_identifiers :: "OutdatedPackage list \<Rightarrow> bool" where
  "exact_identifiers xs =
     list_all (\<lambda>p. case semver_parse (o_current p) of
                      None \<Rightarrow> True
                    | Some v \<Rightarrow>
                        list_all (\<lambda>i. is_numeric i \<longrightarrow> to_double (digits_val i) = digits_val i)
                          (sv_prerelease v)) xs"

text \<open>
  The array of a report as it is after \<open>sortOutdatedByPriority\<close> was called on it and
  returned.
\<close>
definition outdated_after :: "store \<Rightarrow> addr \<Rightarrow> OutdatedPackage list option" where
  "outdated_after h a = map_option (\<lambda>r. fst r a) (sortOutdatedByPriority h a)"

definition sample_outdated :: "OutdatedPackage list" where
  "sample_outdated =
     [\<lparr>o_package = ''b'', o_current = ''2.0.0'', o_latest = ''2.0.4'', o_type = Patch\<rparr>,
      \<lparr>o_package = ''a'', o_current = ''1.0.0'', o_latest = ''3.1.0'', o_type = Major\<rparr>]"

definition sample_store :: store where
  "sample_store a = (if a = 0 then sample_outdated else [])"

(*PROPERTIES*)
section \<open>Properties\<close>

subsection \<open>Decimal numerals\<close>

lemma of_char_digit_char: "d < 10 \<Longrightarrow> (of_char (digit_char d) :: nat) = 48 + d"
  by (simp add: digit_char_def)

lemma is_digit_digit_char: "d < 10 \<Longrightarrow> is_digit (digit_char d)"
  by (simp add: is_digit_def of_char_digit_char)

lemma digit_char_of_char: "is_digit c \<Longrightarrow> digit_char (of_char c - 48) = c"
  by (simp add: is_digit_def digit_char_def)

lemma show_dec_nonempty: "show_dec n \<noteq> []"
  by (subst show_dec.simps) simp

lemma show_dec_digits: "0 \<le> n \<Longrightarrow> list_all is_digit (show_dec n)"
proof (induction n rule: show_dec.induct)
  case (1 n)
  show ?case
  proof (cases "n < 10")
    case True
    with 1(2) show ?thesis by (subst show_dec.simps) (simp add: is_digit_digit_char)
  next
    case False
    then have "list_all is_digit (show_dec (n div 10))" using 1 by simp
    moreover have "nat (n mod 10) < 10" by simp
    ultimately show ?thesis using False
      by (subst show_dec.simps) (simp add: is_digit_digit_char)
  qed
qed

lemma digits_val_snoc: "digits_val (s @ [c]) = 10 * digits_val s + (int (of_char c) - 48)"
  by (simp add: digits_val_def)

lemma digits_val_show_dec: "0 \<le> n \<Longrightarrow> digits_val (show_dec n) = n"
proof (induction n rule: show_dec.induct)
  case (1 n)
  show ?case
  proof (cases "n < 10")
    case True
    with 1(2) show ?thesis
      by (subst show_dec.simps) (simp add: digits_val_def of_char_digit_char)
  next
    case False
    then have "digits_val (show_dec (n div 10)) = n div 10" using 1 by simp
    moreover have "nat (n mod 10) < 10" by simp
    ultimately show ?thesis using False
      by (subst show_dec.simps) (simp add: digits_val_snoc of_char_digit_char)
  qed
qed

lemma digits_val_nonneg: "0 \<le> digits_val s" if "list_all is_digit s"
  using that
proof (induction s rule: rev_induct)
  case Nil
  then show ?case by (simp add: digits_val_def)
next
  case (snoc c s)
  then show ?case by (simp add: digits_val_snoc is_digit_def)
qed

text \<open>A digit string without a leading zero denotes a positive number and prints back.\<close>
lemma show_dec_digits_val_pos:
  "s \<noteq> [] \<Longrightarrow> list_all is_digit s \<Longrightarrow> hd s \<noteq> CHR ''0''
     \<Longrightarrow> 0 < digits_val s \<and> show_dec (digits_val s) = s"
proof (induction s rule: rev_induct)
  case Nil
  then show ?case by simp
next
  case (snoc c s)
  have c: "is_digit c" using snoc.prems by simp
  then have cval: "0 \<le> int (of_char c) - 48" "int (of_char c) - 48 < 10"
    by (auto simp: is_digit_def)
  show ?case
  proof (cases "s = []")
    case True
    have "c \<noteq> CHR ''0''" using snoc.prems True by simp
    moreover have "(of_char c :: nat) = of_char (CHR ''0'') \<longleftrightarrow> c = CHR ''0''"
      by (rule of_char_eq_iff)
    ultimately have "(of_char c :: nat) \<noteq> 48" by simp
    then have pos: "0 < int (of_char c) - 48" using cval by linarith
    have "show_dec (int (of_char c) - 48) = [c]"
      using cval c by (subst show_dec.simps) (simp add: digit_char_of_char nat_diff_distrib')
    then show ?thesis using True pos by (simp add: digits_val_def)
  next
    case False
    then have IH: "0 < digits_val s" "show_dec (digits_val s) = s"
      using snoc by auto
    have "digits_val (s @ [c]) = 10 * digits_val s + (int (of_char c) - 48)"
      by (rule digits_val_snoc)
    moreover have "(10 * digits_val s + (int (of_char c) - 48)) div 10 = digits_val s"
      using cval by simp
    moreover have "(10 * digits_val s + (int (of_char c) - 48)) mod 10 = int (of_char c) - 48"
      using cval by simp
    moreover have "\<not> 10 * digits_val s + (int (of_char c) - 48) < 10"
      using IH(1) cval by linarith
    ultimately have "show_dec (digits_val (s @ [c])) = s @ [c]"
      using IH(2) c by (subst show_dec.simps) (simp add: digit_char_of_char nat_diff_distrib')
    moreover have "0 < digits_val (s @ [c])" using IH(1) cval by (simp add: digits_val_snoc)
    ultimately show ?thesis by simp
  qed
qed

lemma show_dec_zero: "show_dec 0 = ''0''"
  by code_simp

lemma show_dec_digits_val: "numeric_identifier s \<Longrightarrow> show_dec (digits_val s) = s"
proof (cases "hd s = CHR ''0''")
  case True
  assume "numeric_identifier s"
  with True have "s = ''0''" by (simp add: numeric_identifier_def)
  then show ?thesis by (simp add: digits_val_def show_dec_zero)
next
  case False
  assume "numeric_identifier s"
  with False show ?thesis using show_dec_digits_val_pos[of s]
    by (simp add: numeric_identifier_def)
qed

subsection \<open>Arithmetic on doubles\<close>

lemma ulp_small: "a < 9007199254740992 \<Longrightarrow> ulp a = 1"
  by (simp add: ulp.simps)





lemma to_double_exact: "\<bar>x\<bar> \<le> MAX_SAFE_INTEGER \<Longrightarrow> to_double x = x"
  by (simp add: to_double_def MAX_SAFE_INTEGER_def ulp_small Let_def)

lemma to_double_zero [simp]: "to_double 0 = 0"
  by (simp add: to_double_exact MAX_SAFE_INTEGER_def)

text \<open>For evaluation, the rounding is unfolded on numerals only.\<close>
lemma to_double_code [code]:
  "to_double 0 = 0"
  "to_double (Int.Pos k) =
     (let u = ulp (Int.Pos k); q = Int.Pos k div u; r = Int.Pos k mod u
      in (if u < 2 * r \<or> (2 * r = u \<and> odd q) then q + 1 else q) * u)"
  "to_double (Int.Neg k) =
     - (let u = ulp (Int.Pos k); q = Int.Pos k div u; r = Int.Pos k mod u
        in (if u < 2 * r \<or> (2 * r = u \<and> odd q) then q + 1 else q) * u)"
proof -
  show "to_double 0 = 0" by (rule to_double_zero)
  show "to_double (Int.Pos k) =
     (let u = ulp (Int.Pos k); q = Int.Pos k div u; r = Int.Pos k mod u
      in (if u < 2 * r \<or> (2 * r = u \<and> odd q) then q + 1 else q) * u)"
    by (simp add: to_double_def Let_def Int.Pos_def)
  show "to_double (Int.Neg k) =
     - (let u = ulp (Int.Pos k); q = Int.Pos k div u; r = Int.Pos k mod u
        in (if u < 2 * r \<or> (2 * r = u \<and> odd q) then q + 1 else q) * u)"
    by (simp add: to_double_def Let_def Int.Pos_def Int.Neg_def)
qed







subsection \<open>Range of the health score\<close>

lemma calculateHealthScore_range:
  "0 \<le> calculateHealthScore report \<and> calculateHealthScore report \<le> 100"
  by (simp add: calculateHealthScore_def Let_def)

lemma report_body_score:
  assumes "report_body e pj = Inr r"
  shows "r_healthScore r = calculateHealthScore r"
    and "s_critical (r_summary r) = count_severity Critical (r_vulnerabilities r)"
    and "s_high (r_summary r) = count_severity High (r_vulnerabilities r)"
    and "s_moderate (r_summary r) = count_severity Moderate (r_vulnerabilities r)"
    and "s_low (r_summary r) = count_severity Low (r_vulnerabilities r)"
  using assms
  by (auto simp: report_body_def bindE_def Let_def calculateHealthScore_def split: sum.splits)

lemma generate_Inr:
  "generateDependencyReport e pj = Inr r \<longleftrightarrow> report_body e pj = Inr r"
  by (simp add: generateDependencyReport_def split: sum.splits)

lemma quiet_empty_manifest:
  "generateDependencyReport quiet_env (JObj []) = Inr empty_report"
  by code_simp

text \<open>
  C6.  Whatever the report holds, the score computed by \<open>calculateHealthScore\<close> is an
  integer between 0 and 100; in a report produced by the engine the score is that value,
  and it is exactly 100 when the report has no vulnerability and no outdated entry.
\<close>
theorem health_score_range:
  "(0 \<le> calculateHealthScore report \<and> calculateHealthScore report \<le> 100)
   \<and> (generateDependencyReport e pj = Inr r \<longrightarrow>
        0 \<le> r_healthScore r \<and> r_healthScore r \<le> 100
        \<and> (r_vulnerabilities r = [] \<and> r_outdated r = [] \<longrightarrow> r_healthScore r = 100))"
proof -
  have "r_healthScore r = 100"
    if "report_body e pj = Inr r" "r_vulnerabilities r = []" "r_outdated r = []"
    using report_body_score[OF that(1)] that(2,3)
    by (simp add: calculateHealthScore_def count_severity_def Math_round_def js_sub_def
        js_mul_def to_double_exact MAX_SAFE_INTEGER_def)
  moreover have "0 \<le> r_healthScore r \<and> r_healthScore r \<le> 100" if "report_body e pj = Inr r"
    using report_body_score(1)[OF that] calculateHealthScore_range[of r] by simp
  ultimately show ?thesis
    using calculateHealthScore_range[of report] by (simp add: generate_Inr)
qed

theorem health_score_range_witness:
  "generateDependencyReport quiet_env (JObj []) = Inr empty_report
   \<and> r_vulnerabilities empty_report = [] \<and> r_outdated empty_report = []
   \<and> r_healthScore empty_report = 100"
  using health_score_range[of empty_report quiet_env "JObj []" empty_report] quiet_empty_manifest
  by (simp add: empty_report_def)

subsection \<open>Splitting, joining and trimming\<close>

lemma split_on_Nil_iff [simp]: "split_on c s \<noteq> []"
  by (subst split_on.simps) (simp split: list.splits)

lemma dropWhile_neq_hd: "dropWhile (\<lambda>x. x \<noteq> c) s = y # ys \<Longrightarrow> y = c"
  using hd_dropWhile[of "\<lambda>x. x \<noteq> c" s] by auto

lemma join_cons_nonempty: "ys \<noteq> [] \<Longrightarrow> join sep (x # ys) = x @ sep @ join sep ys"
  by (cases ys) simp_all

lemma join_split: "join [c] (split_on c s) = s"
proof (induction c s rule: split_on.induct)
  case (1 c s)
  show ?case
  proof (cases "dropWhile (\<lambda>x. x \<noteq> c) s")
    case Nil
    then have "split_on c s = [s]" by (subst split_on.simps) (simp only: list.case)
    then show ?thesis by simp
  next
    case (Cons y rest)
    then have y: "y = c" by (rule dropWhile_neq_hd)
    have sp: "split_on c s = takeWhile (\<lambda>x. x \<noteq> c) s # split_on c rest"
      using Cons by (subst split_on.simps) simp
    have "join [c] (split_on c rest) = rest" using 1 Cons by simp
    then have "join [c] (split_on c s) = takeWhile (\<lambda>x. x \<noteq> c) s @ [c] @ rest"
      by (simp add: sp join_cons_nonempty)
    also have "\<dots> = takeWhile (\<lambda>x. x \<noteq> c) s @ dropWhile (\<lambda>x. x \<noteq> c) s"
      using Cons y by simp
    finally show ?thesis by simp
  qed
qed

lemma before_after_char:
  "s = before_char c s @ (case after_char c s of None \<Rightarrow> [] | Some r \<Rightarrow> c # r)"
proof (cases "dropWhile (\<lambda>x. x \<noteq> c) s")
  case Nil
  then show ?thesis
    by (metis after_char_def append_Nil2 before_char_def list.simps(4) option.simps(4)
        takeWhile_dropWhile_id)
next
  case (Cons y rest)
  then have "y = c" by (rule dropWhile_neq_hd)
  then show ?thesis using Cons takeWhile_dropWhile_id[of "\<lambda>x. x \<noteq> c" s]
    by (simp add: after_char_def before_char_def)
qed

lemma before_char_free: "c \<notin> set s \<Longrightarrow> before_char c s = s"
  by (auto simp: before_char_def)

lemma after_char_free: "c \<notin> set s \<Longrightarrow> after_char c s = None"
proof -
  assume "c \<notin> set s"
  then have "dropWhile (\<lambda>x. x \<noteq> c) s = []" by auto
  then show ?thesis by (simp only: after_char_def list.case)
qed

lemma before_char_notin: "c \<notin> set (before_char c s)"
  unfolding before_char_def by (metis (mono_tags, lifting) set_takeWhileD)

lemma before_char_length: "length (before_char c s) \<le> length s"
  by (simp add: before_char_def length_takeWhile_le)

text \<open>Trimming\<close>

lemma dropWhile_fixed: "xs \<noteq> [] \<Longrightarrow> \<not> P (hd xs) \<Longrightarrow> dropWhile P xs = xs"
  by (cases xs) simp_all

lemma trim_fixed: "s \<noteq> [] \<Longrightarrow> \<not> is_space (hd s) \<Longrightarrow> \<not> is_space (last s) \<Longrightarrow> trim s = s"
proof -
  assume a: "s \<noteq> []" "\<not> is_space (hd s)" "\<not> is_space (last s)"
  then have "dropWhile is_space s = s" by (simp add: dropWhile_fixed)
  moreover have "dropWhile is_space (rev s) = rev s"
    using a by (intro dropWhile_fixed) (simp_all add: hd_rev)
  ultimately show ?thesis by (simp add: trim_def)
qed

lemma trim_length: "length (trim s) \<le> length s"
proof -
  have "length (dropWhile is_space (rev (dropWhile is_space s)))
          \<le> length (rev (dropWhile is_space s))"
    by (rule length_dropWhile_le)
  also have "\<dots> = length (dropWhile is_space s)" by simp
  also have "\<dots> \<le> length s" by (rule length_dropWhile_le)
  finally show ?thesis by (simp add: trim_def)
qed


subsection \<open>Parsing and printing versions\<close>

lemma space_not_ldn: "is_space c \<Longrightarrow> \<not> is_letterdashnumber c"
  by (auto simp: is_space_def is_letterdashnumber_def is_digit_def is_letter_def)

lemma digit_ldn: "is_digit c \<Longrightarrow> is_letterdashnumber c"
  by (simp add: is_letterdashnumber_def)

lemma ldn_not_special:
  "is_letterdashnumber c \<Longrightarrow> c \<noteq> CHR ''.'' \<and> c \<noteq> CHR ''+'' \<and> c \<noteq> CHR ''v'' \<or> is_letter c"
  by (auto simp: is_letterdashnumber_def is_digit_def is_letter_def)

lemma digit_not_special:
  "is_digit c \<Longrightarrow> c \<noteq> CHR ''.'' \<and> c \<noteq> CHR ''+'' \<and> c \<noteq> CHR ''-'' \<and> c \<noteq> CHR ''v''
     \<and> c \<noteq> CHR ''='' \<and> \<not> is_space c"
  by (auto simp: is_digit_def is_space_def)

lemma ldn_not_plus: "is_letterdashnumber c \<Longrightarrow> c \<noteq> CHR ''+'' \<and> c \<noteq> CHR ''.''"
  by (auto simp: is_letterdashnumber_def is_digit_def is_letter_def)

lemma numeric_identifier_hd: "numeric_identifier a \<Longrightarrow> a \<noteq> [] \<and> is_digit (hd a) \<and> is_digit (last a)"
  by (auto simp: numeric_identifier_def list_all_iff)

text \<open>What a successful parse of the main part says about the string.\<close>
lemma parse_main_Some:
  assumes "parse_main m = Some (ma, mi, pa)"
  shows "show_dec ma @ ''.'' @ show_dec mi @ ''.'' @ show_dec pa = m"
    and "m \<noteq> []" and "is_digit (hd m)" and "is_digit (last m)"
    and "0 \<le> ma \<and> ma \<le> MAX_SAFE_INTEGER" and "0 \<le> mi \<and> mi \<le> MAX_SAFE_INTEGER"
    and "0 \<le> pa \<and> pa \<le> MAX_SAFE_INTEGER"
proof -
  from assms obtain a b c where sp: "split_on CHR ''.'' m = [a, b, c]"
    by (simp add: parse_main_def split: list.splits)
  with assms have
    ok: "numeric_identifier a" "numeric_identifier b" "numeric_identifier c"
    and bound: "digits_val a \<le> MAX_SAFE_INTEGER" "digits_val b \<le> MAX_SAFE_INTEGER"
      "digits_val c \<le> MAX_SAFE_INTEGER"
    and val: "ma = digits_val a" "mi = digits_val b" "pa = digits_val c"
    by (simp_all add: parse_main_def split: if_splits)
  have "join ''.'' [a, b, c] = m" using join_split[of "CHR ''.''" m] sp by simp
  then have m: "a @ ''.'' @ b @ ''.'' @ c = m" by simp
  show "show_dec ma @ ''.'' @ show_dec mi @ ''.'' @ show_dec pa = m"
    using m ok val by (simp add: show_dec_digits_val)
  show "m \<noteq> []" using m by auto
  show "is_digit (hd m)" using m numeric_identifier_hd[OF ok(1)] by (auto simp: hd_append)
  show "is_digit (last m)" using m numeric_identifier_hd[OF ok(3)] by auto
  show "0 \<le> ma \<and> ma \<le> MAX_SAFE_INTEGER" "0 \<le> mi \<and> mi \<le> MAX_SAFE_INTEGER"
    "0 \<le> pa \<and> pa \<le> MAX_SAFE_INTEGER"
    using ok bound val by (simp_all add: numeric_identifier_def digits_val_nonneg)
qed

lemma join_nonempty: "xs \<noteq> [] \<Longrightarrow> last xs \<noteq> [] \<Longrightarrow> join sep xs \<noteq> []"
  by (induction sep xs rule: join.induct) auto

lemma last_join:
  "xs \<noteq> [] \<Longrightarrow> last xs \<noteq> [] \<Longrightarrow> last (join sep xs) = last (last xs)"
  by (induction sep xs rule: join.induct) (auto simp: join_nonempty)

lemma parse_idents_Some:
  assumes "parse_idents ok part = Some ids"
  shows "(case part of None \<Rightarrow> ids = [] | Some p \<Rightarrow> ids \<noteq> [] \<and> join ''.'' ids = p)"
    and "list_all ok ids"
proof -
  show "list_all ok ids"
    using assms by (auto simp: parse_idents_def Let_def split: option.splits if_splits)
  show "(case part of None \<Rightarrow> ids = [] | Some p \<Rightarrow> ids \<noteq> [] \<and> join ''.'' ids = p)"
  proof (cases part)
    case None
    then show ?thesis using assms by (simp add: parse_idents_def)
  next
    case (Some p)
    then have "ids = split_on CHR ''.'' p"
      using assms by (simp add: parse_idents_def Let_def split: if_splits)
    then show ?thesis using Some join_split[of "CHR ''.''" p] by simp
  qed
qed

lemma hd_before_char: "before_char c s \<noteq> [] \<Longrightarrow> hd (before_char c s) = hd s"
  by (cases s) (auto simp: before_char_def split: if_splits)

lemma before_char_nonempty: "before_char c s \<noteq> [] \<Longrightarrow> s \<noteq> []"
  by (auto simp: before_char_def)

lemma parse_idents_None: "parse_idents ok None = Some []"
  by (simp add: parse_idents_def)

lemma parse_full_Some:
  assumes "parse_full s = Some v"
  shows "format v = before_char CHR ''+'' s"
    and "s \<noteq> []" and "is_digit (hd s)"
    and "parse_full (format v) = Some (v\<lparr>sv_build := []\<rparr>)"
    and "\<not> is_space (last (format v))"
proof -
  define core where "core = before_char CHR ''+'' s"
  define m where "m = before_char CHR ''-'' core"
  from assms obtain ma mi pa where pm: "parse_main m = Some (ma, mi, pa)"
    by (auto simp: parse_full_def Let_def core_def m_def split: option.splits)
  from assms pm obtain pre where
    pi: "parse_idents prerelease_identifier (after_char CHR ''-'' core) = Some pre"
    by (auto simp: parse_full_def Let_def core_def m_def split: option.splits)
  from assms pm pi obtain b where
    pb: "parse_idents build_identifier (after_char CHR ''+'' s) = Some b"
    and v: "v = \<lparr>sv_major = ma, sv_minor = mi, sv_patch = pa, sv_prerelease = pre, sv_build = b\<rparr>"
    by (auto simp: parse_full_def Let_def core_def m_def split: option.splits)
  note main = parse_main_Some[OF pm]
  note ids = parse_idents_Some[OF pi]
  have suffix: "(if pre = [] then [] else ''-'' @ join ''.'' pre)
                  = (case after_char CHR ''-'' core of None \<Rightarrow> [] | Some r \<Rightarrow> CHR ''-'' # r)"
    using ids(1) by (cases "after_char CHR ''-'' core") auto
  have "format v = m @ (if pre = [] then [] else ''-'' @ join ''.'' pre)"
    using main(1) by (simp add: format_def v)
  also have "\<dots> = core"
    unfolding suffix m_def by (rule before_after_char[symmetric])
  finally show fmt: "format v = before_char CHR ''+'' s" by (simp add: core_def)
  have core_ne: "core \<noteq> []" using main(2) by (auto simp: m_def before_char_nonempty)
  then show "s \<noteq> []" by (auto simp: core_def before_char_nonempty)
  have "hd core = hd m" using main(2) by (simp add: m_def hd_before_char)
  moreover have "hd s = hd core" using core_ne by (simp add: core_def hd_before_char)
  ultimately show "is_digit (hd s)" using main(3) by simp
  have "before_char CHR ''+'' core = core"
    unfolding core_def by (intro before_char_free before_char_notin)
  moreover have "after_char CHR ''+'' core = None"
    unfolding core_def by (intro after_char_free before_char_notin)
  ultimately have "parse_full core = Some (v\<lparr>sv_build := []\<rparr>)"
    using pm pi by (simp add: parse_full_def m_def[symmetric] parse_idents_None v)
  then show "parse_full (format v) = Some (v\<lparr>sv_build := []\<rparr>)"
    by (simp only: fmt core_def)
  show "\<not> is_space (last (format v))"
  proof (cases "pre = []")
    case True
    then have "format v = m" using main(1) by (simp add: format_def v)
    then show ?thesis using main(2,4) digit_not_special by auto
  next
    case False
    have lp: "last pre \<noteq> [] \<and> list_all is_letterdashnumber (last pre)"
      using ids(2) False by (auto simp: list_all_iff prerelease_identifier_def)
    then have "last (join ''.'' pre) = last (last pre)" using False by (simp add: last_join)
    moreover have "join ''.'' pre \<noteq> []" using False lp by (simp add: join_nonempty)
    ultimately have "last (format v) = last (last pre)"
      using False by (simp add: format_def v)
    moreover have "is_letterdashnumber (last (last pre))"
      using lp by (auto simp: list_all_iff)
    ultimately show ?thesis using space_not_ldn by auto
  qed
qed


lemma strip_v_digit: "s \<noteq> [] \<Longrightarrow> is_digit (hd s) \<Longrightarrow> strip_v s = s"
  using digit_not_special by (cases s) (auto simp: strip_v_def)

lemma semver_parse_Some:
  "semver_parse s = Some v \<longleftrightarrow> length s \<le> MAX_LENGTH \<and> parse_full (strip_v (trim s)) = Some v"
  by (simp add: semver_parse_def)

text \<open>A parsed version prints to a string that parses to the same version, less the build.\<close>
lemma semver_parse_format:
  assumes "semver_parse s = Some v"
  shows "semver_parse (format v) = Some (v\<lparr>sv_build := []\<rparr>)"
proof -
  let ?s1 = "strip_v (trim s)"
  have len: "length s \<le> MAX_LENGTH" and pf: "parse_full ?s1 = Some v"
    using assms by (simp_all add: semver_parse_Some)
  note facts = parse_full_Some[OF pf]
  have fne: "format v \<noteq> []" and fhd: "is_digit (hd (format v))"
    using parse_full_Some(2,3)[OF facts(4)] by simp_all
  have "length ?s1 \<le> length (trim s)"
    by (cases "trim s") (simp_all add: strip_v_def)
  then have "length (format v) \<le> length s"
    using before_char_length[of "CHR ''+''" ?s1] trim_length[of s] by (simp add: facts(1))
  moreover have "trim (format v) = format v"
    using fne fhd facts(5) digit_not_special by (intro trim_fixed) auto
  moreover have "strip_v (format v) = format v" using fne fhd by (rule strip_v_digit)
  ultimately show ?thesis using len facts(4) by (simp add: semver_parse_Some)
qed


subsection \<open>Objects\<close>

lemma insert_index_set:
  "set (insert_index k v es) = insert (k, v) (set es)"
proof (induction es)
  case Nil
  then show ?case by simp
next
  case (Cons a es)
  obtain k' v' where a: "a = (k', v')" by (cases a)
  show ?case
    by (cases "is_array_index k' \<and> digits_val k' < digits_val k") (use Cons a in auto)
qed

lemma insert_index_keys: "fst ` set (insert_index k v es) = insert k (fst ` set es)"
  by (simp add: insert_index_set)

lemma map_of_update_None:
  "map_of (map (\<lambda>(k', v'). (k', if k' = k then v else v')) es) k' = None
     \<longleftrightarrow> map_of es k' = None"
  by (induction es) auto

lemma map_fst_update: "map fst (map (\<lambda>(k', v'). (k', f k' v')) es) = map fst es"
  by (simp add: comp_def case_prod_beta)

lemma obj_set_keys: "fst ` set (obj_set es k v) = insert k (fst ` set es)"
proof (cases "map_of es k")
  case None
  then show ?thesis by (auto simp: obj_set_def insert_index_keys)
next
  case (Some a)
  then have "(k, a) \<in> set es" by (rule map_of_SomeD)
  then have "k \<in> fst ` set es" by force
  moreover have "fst ` set (map (\<lambda>(k', v'). (k', if k' = k then v else v')) es)
        = fst ` set es"
    using map_fst_update[of "\<lambda>k' v'. if k' = k then v else v'" es]
    by (metis set_map)
  ultimately show ?thesis using Some by (auto simp: obj_set_def)
qed

lemma insert_index_distinct:
  "k \<notin> fst ` set es \<Longrightarrow> distinct (map fst es) \<Longrightarrow> distinct (map fst (insert_index k v es))"
proof (induction es)
  case Nil
  then show ?case by simp
next
  case (Cons a es)
  obtain k' v' where a: "a = (k', v')" by (cases a)
  have "fst ` set (insert_index k v es) = insert k (fst ` set es)" by (rule insert_index_keys)
  then show ?case using Cons a by (auto simp: image_iff)
qed

lemma obj_set_distinct:
  assumes "distinct (map fst es)"
  shows "distinct (map fst (obj_set es k v))"
proof (cases "map_of es k")
  case None
  then have "k \<notin> fst ` set es" by (simp add: map_of_eq_None_iff)
  then show ?thesis using None assms by (auto simp: obj_set_def insert_index_distinct)
next
  case (Some a)
  have "obj_set es k v = map (\<lambda>(k', v'). (k', if k' = k then v else v')) es"
    using Some by (simp add: obj_set_def)
  then show ?thesis using assms by (simp only: map_fst_update)
qed

lemma obj_assign_distinct:
  "distinct (map fst es) \<Longrightarrow> distinct (map fst (obj_assign es new))"
  unfolding obj_assign_def
  by (induction new arbitrary: es) (auto simp: obj_set_distinct split: prod.splits)

lemma obj_spread_distinct: "distinct (map fst (obj_spread a b))"
  by (simp add: obj_spread_def obj_assign_distinct)

lemma obj_assign_Cons: "obj_assign es ((k, v) # new) = obj_assign (obj_set es k v) new"
  by (simp add: obj_assign_def)

lemma obj_assign_Nil: "obj_assign es [] = es"
  by (simp add: obj_assign_def)

lemma map_of_update:
  "map_of (map (\<lambda>(k', v'). (k', f k' v')) es) k = map_option (f k) (map_of es k)"
  by (induction es) auto

lemma map_of_insert_index:
  "k \<notin> fst ` set es \<Longrightarrow>
     map_of (insert_index k v es) k' = (if k' = k then Some v else map_of es k')"
proof (induction es)
  case Nil
  then show ?case by simp
next
  case (Cons a es)
  obtain k1 v1 where a: "a = (k1, v1)" by (cases a)
  show ?case
    using Cons a
    by (cases "is_array_index k1 \<and> digits_val k1 < digits_val k") auto
qed

lemma map_of_obj_set:
  "map_of (obj_set es k v) k' = (if k' = k then Some v else map_of es k')"
proof (cases "map_of es k = None")
  case True
  then have absent: "k \<notin> fst ` set es" by (simp add: map_of_eq_None_iff)
  show ?thesis
  proof (cases "is_array_index k")
    case True
    then show ?thesis using \<open>map_of es k = None\<close> absent
      by (simp add: obj_set_def map_of_insert_index)
  next
    case False
    then show ?thesis using \<open>map_of es k = None\<close>
      by (auto simp: obj_set_def map_add_def split: option.splits)
  qed
next
  case False
  then show ?thesis
    by (cases "map_of es k'") (auto simp: obj_set_def map_of_update)
qed

lemma map_of_obj_assign:
  "distinct (map fst new) \<Longrightarrow>
     map_of (obj_assign es new) k
       = (case map_of new k of Some v \<Rightarrow> Some v | None \<Rightarrow> map_of es k)"
proof (induction new arbitrary: es)
  case Nil
  then show ?case by (simp add: obj_assign_Nil)
next
  case (Cons a new)
  obtain k1 v1 where a: "a = (k1, v1)" by (cases a)
  have "map_of new k1 = None" using Cons.prems a by (simp add: map_of_eq_None_iff)
  moreover have "map_of (obj_assign (obj_set es k1 v1) new) k
       = (case map_of new k of Some v \<Rightarrow> Some v | None \<Rightarrow> map_of (obj_set es k1 v1) k)"
    using Cons.IH[of "obj_set es k1 v1"] Cons.prems by simp
  ultimately show ?case using a
    by (auto simp: obj_assign_Cons map_of_obj_set split: option.splits)
qed



lemma obj_put_keys: "fst ` set (obj_put es k v) \<subseteq> insert k (fst ` set es)"
  by (auto simp: obj_put_def obj_set_keys)

lemma map_of_obj_put:
  "map_of (obj_put es k v) k' =
     (if k' = k \<and> k \<noteq> ''__proto__'' then Some v else map_of es k')"
  by (simp add: obj_put_def map_of_obj_set)

subsection \<open>The health score formula\<close>




lemma js_sub_self [simp]: "js_sub a a = 0"
  by (simp add: js_sub_def)














lemma two_vulnerability_report_generated:
  "generateDependencyReport sample_env (JObj []) = Inr two_vulnerability_report"
  by code_simp


text \<open>Comparison does not look at the build metadata.\<close>
lemma compare_versions_build [simp]:
  "compare_versions (v\<lparr>sv_build := b\<rparr>) (w\<lparr>sv_build := b'\<rparr>) = compare_versions v w"
  by (simp add: compare_versions_def format_def compareMain_def comparePre_def)

lemma compare_num_zero [simp]: "compare_num a b = 0 \<longleftrightarrow> a = b"
  by (simp add: compare_num_def)

lemma compareMain_zero:
  "compareMain v w = 0 \<longleftrightarrow>
     sv_major v = sv_major w \<and> sv_minor v = sv_minor w \<and> sv_patch v = sv_patch w"
  by (auto simp: compareMain_def)

lemma format_eq_main:
  assumes "semver_parse c = Some v" and "semver_parse l = Some w" and "format v = format w"
  shows "sv_major v = sv_major w \<and> sv_minor v = sv_minor w \<and> sv_patch v = sv_patch w
         \<and> sv_prerelease v = sv_prerelease w"
proof -
  have "Some (v\<lparr>sv_build := []\<rparr>) = Some (w\<lparr>sv_build := []\<rparr>)"
    using semver_parse_format[OF assms(1)] semver_parse_format[OF assms(2)] assms(3) by simp
  then have "v\<lparr>sv_build := []\<rparr> = w\<lparr>sv_build := []\<rparr>" by simp
  then show ?thesis
    by (metis SemVer.select_convs(1-4) SemVer.surjective SemVer.update_convs(5))
qed

lemma compare_versions_zero_main:
  assumes "semver_parse c = Some v" and "semver_parse l = Some w"
    and "compare_versions v w = 0"
  shows "sv_major v = sv_major w \<and> sv_minor v = sv_minor w \<and> sv_patch v = sv_patch w"
proof (cases "format v = format w")
  case True
  then show ?thesis using format_eq_main[OF assms(1,2)] by simp
next
  case False
  then show ?thesis using assms(3)
    by (auto simp: compare_versions_def compareMain_zero split: if_splits)
qed











subsection \<open>Failure outcomes of the entry points\<close>

text \<open>
  C10.  \<open>generateVulnerabilityReport\<close> has no failing outcome: for every world and every
  manifest value it returns a list, the empty one when the manifest is \<open>null\<close> or
  \<open>undefined\<close>.
\<close>
theorem vulnerability_report_never_raises:
  "(\<exists>vulnerabilities. generateVulnerabilityReport e packageJson = Inr vulnerabilities)
   \<and> (nullish packageJson \<longrightarrow> generateVulnerabilityReport e packageJson = Inr [])"
  by (simp add: generateVulnerabilityReport_def bindE_def get_prop_def split: sum.splits)

theorem vulnerability_report_never_raises_witness:
  "nullish JNull \<and> generateVulnerabilityReport quiet_env JNull = Inr []"
  using vulnerability_report_never_raises[of quiet_env JNull] by simp

lemma index_keys_digits:
  "k \<in> set (map (\<lambda>i. show_dec (int i)) [0..<n]) \<Longrightarrow> list_all is_digit k"
  by (auto simp: show_dec_digits)

lemma map_of_index_keys:
  assumes "\<not> list_all is_digit k"
  shows "map_of (zip (map (\<lambda>i. show_dec (int i)) [0..<n]) vals) k = None"
proof -
  have "k \<notin> set (map (\<lambda>i. show_dec (int i)) [0..<n])"
    using assms index_keys_digits by blast
  then have "k \<notin> fst ` set (zip (map (\<lambda>i. show_dec (int i)) [0..<n]) vals)"
    by (metis (no_types, lifting) imageE in_set_zipE prod.collapse)
  then show ?thesis by (simp add: map_of_eq_None_iff)
qed

lemma get_prop_primitive:
  assumes "\<not> list_all is_digit k"
  shows "get_prop (JStr s) k = Inr JUndefined" "get_prop (JNum n) k = Inr JUndefined"
    "get_prop (JBool b) k = Inr JUndefined"
  using assms by (simp_all add: get_prop_def map_of_index_keys)

lemma get_prop_total: "\<not> nullish x \<Longrightarrow> \<exists>v. get_prop x k = Inr v"
  by (simp add: get_prop_def)

lemma getOutdatedFast_total:
  "\<not> nullish pj \<Longrightarrow> \<exists>outdated. getOutdatedFast e pj = Inr outdated"
  by (simp add: getOutdatedFast_def get_prop_def bindE_def)

lemma report_body_total: "\<not> nullish pj \<Longrightarrow> \<exists>report. report_body e pj = Inr report"
  by (simp add: report_body_def getOutdatedFast_def get_prop_def bindE_def Let_def)

lemma report_body_nullish:
  "nullish pj \<Longrightarrow>
     report_body e pj = Inl (TypeError (''Cannot read properties of '' @ nullish_name pj
                           @ '' (reading 'dependencies')''))"
  by (simp add: report_body_def getOutdatedFast_def get_prop_def bindE_def)

lemma not_digits_dependencies:
  "\<not> list_all is_digit ''dependencies''" "\<not> list_all is_digit ''devDependencies''"
  by (simp_all add: is_digit_def)

lemma report_body_primitive:
  assumes "pj = JStr s \<or> pj = JNum n \<or> pj = JBool b"
  shows "\<exists>report. report_body e pj = Inr report \<and> r_dependencies report = JObj []
           \<and> r_devDependencies report = JObj [] \<and> r_outdated report = []"
proof -
  have d: "get_prop pj ''dependencies'' = Inr JUndefined"
    "get_prop pj ''devDependencies'' = Inr JUndefined"
    using assms get_prop_primitive not_digits_dependencies by auto
  have "getOutdatedFast e pj = Inr []"
    by (simp add: getOutdatedFast_def d bindE_def obj_spread_def obj_assign_def)
  then show ?thesis
    by (simp add: report_body_def d bindE_def Let_def or_else_def buildOutdatedList_def)
qed

text \<open>
  C4 (amended).  \<open>generateDependencyReport\<close> fails, with a message that starts with
  \<open>Failed to generate dependency report: \<close>, exactly when the manifest is \<open>null\<close> or
  \<open>undefined\<close>.  For every other value it returns a report; for a string, a number or a
  boolean the report has empty dependency mappings and no outdated entry.
\<close>
theorem report_failure_only_without_manifest:
  "(nullish packageJson \<longrightarrow>
      generateDependencyReport e packageJson
        = Inl (Error (''Failed to generate dependency report: ''
                      @ ''Cannot read properties of '' @ nullish_name packageJson
                      @ '' (reading 'dependencies')'')))
   \<and> (\<not> nullish packageJson \<longrightarrow>
        (\<exists>report. generateDependencyReport e packageJson = Inr report))
   \<and> (packageJson = JStr s \<or> packageJson = JNum n \<or> packageJson = JBool b \<longrightarrow>
        (\<exists>report. generateDependencyReport e packageJson = Inr report
           \<and> r_dependencies report = JObj [] \<and> r_devDependencies report = JObj []
           \<and> r_outdated report = []))"
proof (intro conjI impI)
  assume "nullish packageJson"
  then show "generateDependencyReport e packageJson
        = Inl (Error (''Failed to generate dependency report: ''
                      @ ''Cannot read properties of '' @ nullish_name packageJson
                      @ '' (reading 'dependencies')''))"
    by (simp add: generateDependencyReport_def report_body_nullish)
next
  assume "\<not> nullish packageJson"
  then show "\<exists>report. generateDependencyReport e packageJson = Inr report"
    using report_body_total[of packageJson e] by (auto simp: generate_Inr)
next
  assume "packageJson = JStr s \<or> packageJson = JNum n \<or> packageJson = JBool b"
  then show "\<exists>report. generateDependencyReport e packageJson = Inr report
           \<and> r_dependencies report = JObj [] \<and> r_devDependencies report = JObj []
           \<and> r_outdated report = []"
    using report_body_primitive[of packageJson s n b e] by (auto simp: generate_Inr)
qed

theorem report_failure_only_without_manifest_witness:
  "nullish JUndefined
   \<and> generateDependencyReport quiet_env JUndefined
       = Inl (Error ''Failed to generate dependency report: Cannot read properties of undefined (reading 'dependencies')'')
   \<and> \<not> nullish (JNum 7)
   \<and> (\<exists>report. generateDependencyReport quiet_env (JNum 7) = Inr report
         \<and> r_dependencies report = JObj [] \<and> r_devDependencies report = JObj []
         \<and> r_outdated report = [])"
  using report_failure_only_without_manifest[of JUndefined quiet_env]
    report_failure_only_without_manifest[of "JNum 7" quiet_env _ 7]
  by simp

text \<open>A string and a number in place of the manifest are answered with a report.\<close>
theorem report_for_string_manifest_counterexample:
  "generateDependencyReport quiet_env (JStr ''hello'') = Inr empty_report
   \<and> generateDependencyReport quiet_env (JNum 5) = Inr empty_report"
  by code_simp

subsection \<open>Reading the clock\<close>

lemma bindE_Inl [simp]: "bindE (Inl e) f = Inl e"
  by (simp add: bindE_def)

lemma bindE_Inr [simp]: "bindE (Inr x) f = f x"
  by (simp add: bindE_def)

lemma bindE_case:
  "bindE m f = (case m of Inl e \<Rightarrow> Inl e | Inr x \<Rightarrow> f x)"
  by (simp add: bindE_def)

lemma via_callback_outline:
  "via_callback now pkg info via t =
     (case via_outline pkg info via of
        Inl err \<Rightarrow> Inl err
      | Inr None \<Rightarrow> Inr (None, t)
      | Inr (Some (src, v)) \<Rightarrow>
          if src \<noteq> [] then Inr (Some v, t)
          else Inr (Some (v\<lparr>v_id := ''vuln-'' @ pkg @ ''-'' @ show_int (now t)\<rparr>), Suc t))"
proof (cases "typeof_object via")
  case False
  then show ?thesis by (simp add: via_callback_def via_outline_def)
next
  case True
  show ?thesis
  proof (cases "get_prop via ''source''")
    case (Inl e)
    then show ?thesis using True by (simp add: via_callback_def via_outline_def)
  next
    case source: (Inr source)
    show ?thesis
    proof (cases "get_prop via ''title''")
      case (Inl e)
      then show ?thesis using True source by (simp add: via_callback_def via_outline_def)
    next
      case title: (Inr title)
      show ?thesis
      proof (cases "truthy source \<or> truthy title")
        case False
        then show ?thesis using True source title
          by (simp add: via_callback_def via_outline_def)
      next
        case reported: True
        show ?thesis
        proof (cases "if nullish source then Inr [] else js_toString source")
          case (Inl e)
          then show ?thesis using True source title reported
            by (simp add: via_callback_def via_outline_def)
        next
          case src: (Inr src)
          show ?thesis
            using True source title reported src
            by (cases "get_prop via ''range''"; cases "get_prop via ''severity''";
                cases "normalizeSeverity (projr (get_prop via ''severity''))";
                cases "get_prop info ''fixAvailable''")
              (simp_all add: via_callback_def via_outline_def Let_def)
        qed
      qed
    qed
  qed
qed

lemma via_callback_no_clock:
  "\<not> unsourced via \<Longrightarrow> via_callback c1 pkg info via t = via_callback c2 pkg info via t"
proof (cases "via_outline pkg info via")
  case (Inl e)
  then show ?thesis by (simp add: via_callback_outline)
next
  case (Inr r)
  assume ns: "\<not> unsourced via"
  show ?thesis
  proof (cases r)
    case None
    then show ?thesis using Inr by (simp add: via_callback_outline)
  next
    case (Some p)
    obtain src v where p: "p = (src, v)" by (cases p)
    have "src \<noteq> []"
    proof
      assume "src = []"
      with Inr Some p have "via_outline pkg info via = Inr (Some ([], v))" by simp
      then have "unsourced via"
        by (auto simp: via_outline_def unsourced_def get_prop_def get_opt_def bindE_case
            split: if_splits sum.splits)
      with ns show False by simp
    qed
    then show ?thesis using Inr Some p by (simp add: via_callback_outline)
  qed
qed

lemma via_loop_no_clock:
  "\<not> list_ex unsourced vias \<Longrightarrow>
     via_loop c1 pkg info vias st = via_loop c2 pkg info vias st"
proof (induction vias arbitrary: st)
  case Nil
  then show ?case by simp
next
  case (Cons via rest)
  then have "via_callback c1 pkg info via (snd st) = via_callback c2 pkg info via (snd st)"
    by (simp add: via_callback_no_clock)
  moreover have "\<And>st'. via_loop c1 pkg info rest st' = via_loop c2 pkg info rest st'"
    using Cons by simp
  ultimately show ?case by (simp split: sum.splits option.splits prod.splits)
qed

lemma get_prop_get_opt: "get_prop x k = Inr v \<Longrightarrow> get_opt x k = v"
  by (auto simp: get_prop_def get_opt_def split: if_splits)

lemma package_step_no_clock:
  assumes "\<And>vias. get_opt (snd entry) ''via'' = JArr vias \<Longrightarrow> \<not> list_ex unsourced vias"
  shows "package_step c1 entry st = package_step c2 entry st"
proof (cases "get_prop (snd entry) ''via''")
  case (Inl e)
  then show ?thesis by (simp add: package_step_def)
next
  case (Inr via)
  show ?thesis
  proof (cases via)
    case (JArr vias)
    then have "\<not> list_ex unsourced vias" using assms get_prop_get_opt[OF Inr] by simp
    then show ?thesis using Inr JArr by (simp add: package_step_def via_loop_no_clock)
  qed (simp_all add: package_step_def Inr)
qed

lemma package_loop_no_clock:
  assumes "\<And>entry vias. entry \<in> set entries \<Longrightarrow> get_opt (snd entry) ''via'' = JArr vias
             \<Longrightarrow> \<not> list_ex unsourced vias"
  shows "package_loop c1 entries st = package_loop c2 entries st"
  using assms
proof (induction entries arbitrary: st)
  case Nil
  then show ?case by simp
next
  case (Cons entry rest)
  have "package_step c1 entry st = package_step c2 entry st"
  proof (rule package_step_no_clock)
    fix vias
    assume "get_opt (snd entry) ''via'' = JArr vias"
    then show "\<not> list_ex unsourced vias" using Cons.prems[of entry vias] by simp
  qed
  moreover have "package_loop c1 rest st' = package_loop c2 rest st'" for st'
  proof (rule Cons.IH)
    fix entry' vias
    assume "entry' \<in> set rest" "get_opt (snd entry') ''via'' = JArr vias"
    then show "\<not> list_ex unsourced vias" using Cons.prems[of entry' vias] by simp
  qed
  ultimately show ?case by (simp split: prod.splits option.splits)
qed

lemma via_arrays_member:
  "(pkg, vias) \<in> set (via_arrays npmAudit) \<longleftrightarrow>
     (\<exists>info. (pkg, info) \<in> set (own_entries (get_opt npmAudit ''vulnerabilities''))
        \<and> get_opt info ''via'' = JArr vias)"
proof
  assume "(pkg, vias) \<in> set (via_arrays npmAudit)"
  then show "\<exists>info. (pkg, info) \<in> set (own_entries (get_opt npmAudit ''vulnerabilities''))
        \<and> get_opt info ''via'' = JArr vias"
    by (auto simp: via_arrays_def split: json.splits)
next
  assume "\<exists>info. (pkg, info) \<in> set (own_entries (get_opt npmAudit ''vulnerabilities''))
        \<and> get_opt info ''via'' = JArr vias"
  then obtain info where
    "(pkg, info) \<in> set (own_entries (get_opt npmAudit ''vulnerabilities''))"
    "get_opt info ''via'' = JArr vias"
    by blast
  then show "(pkg, vias) \<in> set (via_arrays npmAudit)"
    by (force simp: via_arrays_def)
qed

lemma process_run_no_clock:
  assumes "no_synthesized_ids npmAudit"
  shows "process_run c1 npmAudit = process_run c2 npmAudit"
proof (cases "get_prop npmAudit ''vulnerabilities''")
  case (Inl e)
  then show ?thesis by (simp add: process_run_def)
next
  case (Inr vulns)
  have "\<not> list_ex unsourced vias"
    if "entry \<in> set (own_entries vulns)" "get_opt (snd entry) ''via'' = JArr vias"
    for entry vias
  proof -
    have "(fst entry, snd entry) \<in> set (own_entries (get_opt npmAudit ''vulnerabilities''))"
      using that(1) get_prop_get_opt[OF Inr] by simp
    then have "(fst entry, vias) \<in> set (via_arrays npmAudit)"
      using that(2) unfolding via_arrays_member by blast
    then show ?thesis using assms by (auto simp: no_synthesized_ids_def list_all_iff)
  qed
  then have "package_loop c1 (own_entries vulns) ([], 0) = package_loop c2 (own_entries vulns) ([], 0)"
    by (intro package_loop_no_clock) auto
  then show ?thesis using Inr by (simp add: process_run_def)
qed

lemma processVulnerabilities_no_clock:
  "no_synthesized_ids npmAudit \<Longrightarrow>
     processVulnerabilities c1 npmAudit = processVulnerabilities c2 npmAudit"
  by (simp add: processVulnerabilities_def process_run_no_clock[of npmAudit c1 c2])

lemma via_outline_sourced:
  assumes "via_outline pkg info via = Inr (Some (src, v))" and "src \<noteq> []"
  shows "source_id via = Some src" and "v_id v = src" and "v_package v = pkg"
proof -
  have obj: "typeof_object via" using assms(1) by (auto simp: via_outline_def split: if_splits)
  have nn: "\<not> nullish via"
    using assms(1) obj by (auto simp: via_outline_def get_prop_def split: if_splits)
  then have source: "get_prop via ''source'' = Inr (get_opt via ''source'')"
    and title: "get_prop via ''title'' = Inr (get_opt via ''title'')"
    by (simp_all add: get_prop_def get_opt_def)
  let ?source = "get_opt via ''source''"
  have rep: "truthy ?source \<or> truthy (get_opt via ''title'')"
    using assms(1) obj source title by (auto simp: via_outline_def split: if_splits)
  have src: "(if nullish ?source then Inr [] else js_toString ?source) = Inr src"
    using assms(1) obj source title rep
    by (auto simp: via_outline_def bindE_case split: if_splits sum.splits)
  then have str: "\<not> nullish ?source" "js_toString ?source = Inr src"
    using assms(2) by (auto split: if_splits)
  show "source_id via = Some src" using obj nn str by (simp add: source_id_def)
  show "v_id v = src" "v_package v = pkg"
    using assms(1) obj source title rep src
    by (auto simp: via_outline_def bindE_case split: if_splits sum.splits)
qed

lemma via_outline_unsourced:
  assumes "via_outline pkg info via = Inr (Some ([], v))"
  shows "unsourced via"
  using assms
  by (auto simp: via_outline_def unsourced_def get_prop_def get_opt_def bindE_case
      split: if_splits sum.splits)

lemma via_outline_package:
  assumes "via_outline pkg info via = Inr (Some (src, v))"
  shows "v_package v = pkg" and "v_id v = src"
  using assms
  by (auto simp: via_outline_def bindE_case split: if_splits sum.splits)

text \<open>The loops with a clock produce the entries of the loops without one, resolved.\<close>
lemma via_loop_outline:
  "via_loop now pkg info vias (map (resolve_id now) ps, t) =
     (case via_loop_outline pkg info vias (ps, t) of
        ((ps', t'), err) \<Rightarrow> ((map (resolve_id now) ps', t'), err))"
proof (induction vias arbitrary: ps t)
  case Nil
  then show ?case by simp
next
  case (Cons via rest)
  show ?case
  proof (cases "via_outline pkg info via")
    case (Inl e)
    then show ?thesis by (simp add: via_callback_outline)
  next
    case (Inr r)
    show ?thesis
    proof (cases r)
      case None
      then show ?thesis using Inr Cons.IH[of ps t] by (simp add: via_callback_outline)
    next
      case (Some p)
      obtain src v where p: "p = (src, v)" by (cases p)
      have pkg: "v_package v = pkg" using via_outline_package(1)[of pkg info via src v] Inr Some p
        by simp
      show ?thesis
      proof (cases "src = []")
        case True
        have "map (resolve_id now) ps @ [v\<lparr>v_id := ''vuln-'' @ pkg @ ''-'' @ show_int (now t)\<rparr>]
                = map (resolve_id now) (ps @ [(v, Some t)])"
          using pkg by (simp add: resolve_id_def)
        then show ?thesis
          using Inr Some p True Cons.IH[of "ps @ [(v, Some t)]" "Suc t"]
          by (simp add: via_callback_outline)
      next
        case False
        have "map (resolve_id now) ps @ [v] = map (resolve_id now) (ps @ [(v, None)])"
          by (simp add: resolve_id_def)
        then show ?thesis
          using Inr Some p False Cons.IH[of "ps @ [(v, None)]" t]
          by (simp add: via_callback_outline)
      qed
    qed
  qed
qed

lemma package_step_outline:
  "package_step now entry (map (resolve_id now) ps, t) =
     (case package_step_outline entry (ps, t) of
        ((ps', t'), err) \<Rightarrow> ((map (resolve_id now) ps', t'), err))"
proof (cases "get_prop (snd entry) ''via''")
  case (Inl e)
  then show ?thesis by (simp add: package_step_def package_step_outline_def)
next
  case (Inr via)
  show ?thesis
  proof (cases via)
    case (JArr vias)
    then show ?thesis using Inr
      by (simp add: package_step_def package_step_outline_def via_loop_outline)
  qed (simp_all add: package_step_def package_step_outline_def Inr)
qed

lemma package_loop_outline:
  "package_loop now entries (map (resolve_id now) ps, t) =
     (case package_loop_outline entries (ps, t) of
        ((ps', t'), err) \<Rightarrow> ((map (resolve_id now) ps', t'), err))"
proof (induction entries arbitrary: ps t)
  case Nil
  then show ?case by simp
next
  case (Cons entry rest)
  obtain ps' t' err where step: "package_step_outline entry (ps, t) = ((ps', t'), err)"
    by (metis prod.collapse)
  then have step': "package_step now entry (map (resolve_id now) ps, t)
                      = ((map (resolve_id now) ps', t'), err)"
    by (simp add: package_step_outline)
  show ?case using step step' Cons.IH[of ps' t'] by (cases err) simp_all
qed

lemma processVulnerabilities_outline:
  "processVulnerabilities now npmAudit = map (resolve_id now) (vulnerability_outline npmAudit)"
proof (cases "get_prop npmAudit ''vulnerabilities''")
  case (Inl e)
  then show ?thesis
    by (simp add: processVulnerabilities_def process_run_def vulnerability_outline_def)
next
  case (Inr vulns)
  have "package_loop now (own_entries vulns) (map (resolve_id now) [], 0) =
     (case package_loop_outline (own_entries vulns) ([], 0) of
        ((ps', t'), err) \<Rightarrow> ((map (resolve_id now) ps', t'), err))"
    by (rule package_loop_outline)
  then show ?thesis using Inr
    by (simp add: processVulnerabilities_def process_run_def vulnerability_outline_def
        split: prod.splits)
qed

text \<open>Every pending entry comes from an element of its package.\<close>
lemma via_loop_outline_members:
  assumes "p \<in> set (fst (fst (via_loop_outline pkg info vias st)))"
  shows "p \<in> set (fst st)
         \<or> (v_package (fst p) = pkg \<and> (\<exists>via\<in>set vias. from_element p via))"
  using assms
proof (induction vias arbitrary: st)
  case Nil
  then show ?case by simp
next
  case (Cons via rest)
  show ?case
  proof (cases "via_outline pkg info via")
    case (Inl e)
    then show ?thesis using Cons.prems by simp
  next
    case (Inr r)
    show ?thesis
    proof (cases r)
      case None
      then show ?thesis using Inr Cons.prems Cons.IH[of st] by auto
    next
      case (Some q)
      obtain src v where q: "q = (src, v)" by (cases q)
      note out = Inr[unfolded Some q]
      show ?thesis
      proof (cases "src = []")
        case True
        from Cons.prems have "p \<in> set (fst (fst (via_loop_outline pkg info rest
                                  (fst st @ [(v, Some (snd st))], Suc (snd st)))))"
          using out True by simp
        from Cons.IH[OF this]
        consider "p \<in> set (fst st)" | "p = (v, Some (snd st))"
          | "v_package (fst p) = pkg \<and> (\<exists>via\<in>set rest. from_element p via)"
          by auto
        then show ?thesis
        proof cases
          case 2
          have "unsourced via" using out True via_outline_unsourced[of pkg info via v] by simp
          then show ?thesis using 2 via_outline_package(1)[OF out]
            by (auto simp: from_element_def)
        qed auto
      next
        case False
        from Cons.prems have "p \<in> set (fst (fst (via_loop_outline pkg info rest
                                  (fst st @ [(v, None)], snd st))))"
          using out False by simp
        from Cons.IH[OF this]
        consider "p \<in> set (fst st)" | "p = (v, None)"
          | "v_package (fst p) = pkg \<and> (\<exists>via\<in>set rest. from_element p via)"
          by auto
        then show ?thesis
        proof cases
          case 2
          then show ?thesis using via_outline_sourced[OF out False] False
            by (auto simp: from_element_def)
        qed auto
      qed
    qed
  qed
qed

lemma package_step_outline_members:
  assumes "p \<in> set (fst (fst (package_step_outline entry st)))"
  shows "p \<in> set (fst st)
         \<or> (v_package (fst p) = fst entry
             \<and> (\<exists>vias. get_opt (snd entry) ''via'' = JArr vias
                    \<and> (\<exists>via\<in>set vias. from_element p via)))"
proof (cases "get_prop (snd entry) ''via''")
  case (Inl e)
  then show ?thesis using assms by (simp add: package_step_outline_def)
next
  case (Inr via)
  show ?thesis
  proof (cases via)
    case (JArr vias)
    then have "p \<in> set (fst (fst (via_loop_outline (fst entry) (snd entry) vias st)))"
      using assms Inr by (simp add: package_step_outline_def)
    from via_loop_outline_members[OF this] show ?thesis
      using get_prop_get_opt[OF Inr] JArr by auto
  qed (use assms Inr in \<open>simp_all add: package_step_outline_def\<close>)
qed

lemma package_loop_outline_members:
  assumes "p \<in> set (fst (fst (package_loop_outline entries st)))"
  shows "p \<in> set (fst st)
         \<or> (\<exists>entry\<in>set entries. v_package (fst p) = fst entry
               \<and> (\<exists>vias. get_opt (snd entry) ''via'' = JArr vias
                      \<and> (\<exists>via\<in>set vias. from_element p via)))"
  using assms
proof (induction entries arbitrary: st)
  case Nil
  then show ?case by simp
next
  case (Cons entry rest)
  obtain st' err where step: "package_step_outline entry st = (st', err)"
    by (cases "package_step_outline entry st")
  have first: "q \<in> set (fst st)
         \<or> (v_package (fst q) = fst entry
             \<and> (\<exists>vias. get_opt (snd entry) ''via'' = JArr vias
                    \<and> (\<exists>via\<in>set vias. from_element q via)))"
    if "q \<in> set (fst st')" for q
    using package_step_outline_members[of q entry st] that step by simp
  show ?case
  proof (cases err)
    case (Some e)
    then have "p \<in> set (fst st')" using Cons.prems step by simp
    from first[OF this] show ?thesis by auto
  next
    case None
    then have "p \<in> set (fst (fst (package_loop_outline rest st')))"
      using Cons.prems step by simp
    from Cons.IH[OF this]
    consider "p \<in> set (fst st')"
      | "\<exists>entry\<in>set rest. v_package (fst p) = fst entry
               \<and> (\<exists>vias. get_opt (snd entry) ''via'' = JArr vias
                      \<and> (\<exists>via\<in>set vias. from_element p via))"
      by blast
    then show ?thesis
    proof cases
      case 1
      from first[OF this] show ?thesis by auto
    next
      case 2
      then show ?thesis by auto
    qed
  qed
qed

lemma vulnerability_outline_traceable:
  "list_all (traceable npmAudit) (vulnerability_outline npmAudit)"
proof (cases "get_prop npmAudit ''vulnerabilities''")
  case (Inl e)
  then show ?thesis by (simp add: vulnerability_outline_def)
next
  case (Inr vulns)
  have vulns: "get_opt npmAudit ''vulnerabilities'' = vulns" using Inr by (rule get_prop_get_opt)
  have "traceable npmAudit p"
    if "p \<in> set (fst (fst (package_loop_outline (own_entries vulns) ([], 0))))" for p
  proof -
    from package_loop_outline_members[OF that] obtain entry vias via where
      e: "entry \<in> set (own_entries vulns)" "v_package (fst p) = fst entry"
      "get_opt (snd entry) ''via'' = JArr vias" "via \<in> set vias" "from_element p via"
      by auto
    have "(fst entry, snd entry) \<in> set (own_entries (get_opt npmAudit ''vulnerabilities''))"
      using e(1) vulns by simp
    then have "(fst entry, vias) \<in> set (via_arrays npmAudit)"
      using e(3) unfolding via_arrays_member by blast
    then show ?thesis using e(2,4,5)
      by (auto simp: traceable_def list_ex_iff)
  qed
  then show ?thesis using Inr by (simp add: vulnerability_outline_def list_all_iff)
qed

subsection \<open>Determinism of the report\<close>

lemma report_body_assemble:
  "report_body e pj =
     bindE (getOutdatedFast e pj) (\<lambda>npmOutdated.
     bindE (get_prop pj ''dependencies'') (\<lambda>dependencies.
     bindE (get_prop pj ''devDependencies'') (\<lambda>devDependencies.
       Inr (assemble dependencies devDependencies (buildOutdatedList npmOutdated)
              (processVulnerabilities (clock e) (getNpmAudit e))))))"
  by (simp add: report_body_def assemble_def Let_def calculateHealthScore_def)

lemma outdated_step_clock: "outdated_step (e\<lparr>clock := c\<rparr>) = outdated_step e"
  by (intro ext) (simp add: outdated_step_def outdated_info_def)

lemma getOutdatedFast_clock: "getOutdatedFast (e\<lparr>clock := c\<rparr>) pj = getOutdatedFast e pj"
  by (simp add: getOutdatedFast_def outdated_step_clock)

lemma getNpmAudit_clock: "getNpmAudit (e\<lparr>clock := c\<rparr>) = getNpmAudit e"
  by (simp add: getNpmAudit_def)

lemma generate_assemble:
  "generateDependencyReport (e\<lparr>clock := c\<rparr>) pj =
     (case bindE (getOutdatedFast e pj) (\<lambda>npmOutdated.
           bindE (get_prop pj ''dependencies'') (\<lambda>dependencies.
           bindE (get_prop pj ''devDependencies'') (\<lambda>devDependencies.
             Inr (dependencies, devDependencies, buildOutdatedList npmOutdated))))
      of Inl err \<Rightarrow> Inl (Error (''Failed to generate dependency report: '' @ error_message err))
       | Inr (d, dd, outdated) \<Rightarrow>
           Inr (assemble d dd outdated (processVulnerabilities c (getNpmAudit e))))"
  by (simp add: generateDependencyReport_def report_body_assemble getOutdatedFast_clock
      getNpmAudit_clock bindE_case split: sum.splits)

lemma resolve_id_severity [simp]: "v_severity (resolve_id now p) = v_severity (fst p)"
  by (simp add: resolve_id_def split: option.splits)

lemma count_severity_resolve:
  "count_severity sev (map (resolve_id now) ps) = count_severity sev (map fst ps)"
  by (induction ps) (simp_all add: count_severity_def)

text \<open>Nothing but the list of vulnerabilities depends on the ids.\<close>
lemma assemble_resolve:
  "assemble d dd outdated (map (resolve_id c1) ps)
     = with_vulnerabilities (map (resolve_id c1) ps)
         (assemble d dd outdated (map (resolve_id c2) ps))"
  by (simp add: assemble_def with_vulnerabilities_def Let_def calculateHealthScore_def
      count_severity_resolve)

text \<open>
  C1 (amended).  With the external responses and their order of arrival fixed, two runs
  over the same manifest, at whatever times, fail alike or yield reports that differ in
  the list of vulnerabilities at most; that list is, in each run, the list of pending
  entries of the audit data, which does not depend on the time, with the ids resolved:
  an entry that comes from an element with a source keeps the string form of the source as
  id, in both runs, and an entry that comes from an element without a source gets the id
  \<open>vuln-<package>-<Date.now()>\<close>.  The reports are identical when every reported element
  carries a source.
\<close>
theorem report_deterministic_up_to_clock:
  "generateDependencyReport (e\<lparr>clock := c1\<rparr>) pj
     = map_sum id
         (with_vulnerabilities (map (resolve_id c1) (vulnerability_outline (getNpmAudit e))))
         (generateDependencyReport (e\<lparr>clock := c2\<rparr>) pj)
   \<and> list_all (traceable (getNpmAudit e)) (vulnerability_outline (getNpmAudit e))
   \<and> (no_synthesized_ids (getNpmAudit e) \<longrightarrow>
        generateDependencyReport (e\<lparr>clock := c1\<rparr>) pj
          = generateDependencyReport (e\<lparr>clock := c2\<rparr>) pj)"
proof (intro conjI impI)
  let ?ps = "vulnerability_outline (getNpmAudit e)"
  show "generateDependencyReport (e\<lparr>clock := c1\<rparr>) pj
     = map_sum id (with_vulnerabilities (map (resolve_id c1) ?ps))
         (generateDependencyReport (e\<lparr>clock := c2\<rparr>) pj)"
    using assemble_resolve[of _ _ _ c1 ?ps c2]
    by (simp add: generate_assemble processVulnerabilities_outline split: sum.splits)
  show "list_all (traceable (getNpmAudit e)) ?ps"
    by (rule vulnerability_outline_traceable)
next
  assume "no_synthesized_ids (getNpmAudit e)"
  then have "processVulnerabilities c1 (getNpmAudit e) = processVulnerabilities c2 (getNpmAudit e)"
    by (rule processVulnerabilities_no_clock)
  then show "generateDependencyReport (e\<lparr>clock := c1\<rparr>) pj
          = generateDependencyReport (e\<lparr>clock := c2\<rparr>) pj"
    by (simp add: generate_assemble split: sum.splits prod.splits)
qed

theorem report_deterministic_up_to_clock_witness:
  "vulnerability_outline mixed_audit
     = [(sourced_vulnerability, None), (unsourced_vulnerability, Some 0)]
   \<and> list_all (traceable mixed_audit) (vulnerability_outline mixed_audit)
   \<and> from_element (sourced_vulnerability, None) sourced_element
   \<and> from_element (unsourced_vulnerability, Some 0) unsourced_element
   \<and> map_sum id r_vulnerabilities
        (generateDependencyReport
           (quiet_env\<lparr>npm_audit_output := Some mixed_audit, clock := clock_at 1\<rparr>) (JObj []))
       = Inr [sourced_vulnerability, unsourced_vulnerability\<lparr>v_id := ''vuln-foo-1''\<rparr>]
   \<and> map_sum id r_vulnerabilities
        (generateDependencyReport
           (quiet_env\<lparr>npm_audit_output := Some mixed_audit, clock := clock_at 2\<rparr>) (JObj []))
       = Inr [sourced_vulnerability, unsourced_vulnerability\<lparr>v_id := ''vuln-foo-2''\<rparr>]
   \<and> generateDependencyReport
        (quiet_env\<lparr>npm_audit_output := Some mixed_audit, clock := clock_at 1\<rparr>) (JObj [])
       = map_sum id
           (with_vulnerabilities
              [sourced_vulnerability, unsourced_vulnerability\<lparr>v_id := ''vuln-foo-1''\<rparr>])
           (generateDependencyReport
              (quiet_env\<lparr>npm_audit_output := Some mixed_audit, clock := clock_at 2\<rparr>) (JObj []))
   \<and> no_synthesized_ids (getNpmAudit sample_env)
   \<and> generateDependencyReport (sample_env\<lparr>clock := clock_at 1\<rparr>) sample_manifest
       = generateDependencyReport (sample_env\<lparr>clock := clock_at 2\<rparr>) sample_manifest"
proof -
  let ?e = "quiet_env\<lparr>npm_audit_output := Some mixed_audit\<rparr>"
  have audit: "getNpmAudit ?e = mixed_audit" by (simp add: getNpmAudit_def)
  have outline: "vulnerability_outline mixed_audit
     = [(sourced_vulnerability, None), (unsourced_vulnerability, Some 0)]"
    by code_simp
  have resolved: "map (resolve_id (clock_at 1)) (vulnerability_outline mixed_audit)
     = [sourced_vulnerability, unsourced_vulnerability\<lparr>v_id := ''vuln-foo-1''\<rparr>]"
    by code_simp
  have origin: "from_element (sourced_vulnerability, None) sourced_element"
    "from_element (unsourced_vulnerability, Some 0) unsourced_element"
    by code_simp+
  have run1: "map_sum id r_vulnerabilities
        (generateDependencyReport
           (quiet_env\<lparr>npm_audit_output := Some mixed_audit, clock := clock_at 1\<rparr>) (JObj []))
       = Inr [sourced_vulnerability, unsourced_vulnerability\<lparr>v_id := ''vuln-foo-1''\<rparr>]"
    by code_simp
  have run2: "map_sum id r_vulnerabilities
        (generateDependencyReport
           (quiet_env\<lparr>npm_audit_output := Some mixed_audit, clock := clock_at 2\<rparr>) (JObj []))
       = Inr [sourced_vulnerability, unsourced_vulnerability\<lparr>v_id := ''vuln-foo-2''\<rparr>]"
    by code_simp
  have sample: "no_synthesized_ids (getNpmAudit sample_env)" by code_simp
  note mixed = report_deterministic_up_to_clock[where e = ?e and ?c1.0 = "clock_at 1"
        and pj = "JObj []" and ?c2.0 = "clock_at 2"]
  note plain = report_deterministic_up_to_clock[where e = sample_env and ?c1.0 = "clock_at 1"
        and pj = sample_manifest and ?c2.0 = "clock_at 2"]
  note mixed' = mixed[unfolded audit]
  have m1: "generateDependencyReport
        (quiet_env\<lparr>npm_audit_output := Some mixed_audit, clock := clock_at 1\<rparr>) (JObj [])
       = map_sum id
           (with_vulnerabilities
              [sourced_vulnerability, unsourced_vulnerability\<lparr>v_id := ''vuln-foo-1''\<rparr>])
           (generateDependencyReport
              (quiet_env\<lparr>npm_audit_output := Some mixed_audit, clock := clock_at 2\<rparr>) (JObj []))"
    using conjunct1[OF mixed'] unfolding resolved .
  have m2: "list_all (traceable mixed_audit) (vulnerability_outline mixed_audit)"
    by (rule conjunct1[OF conjunct2[OF mixed']])
  have p3: "generateDependencyReport (sample_env\<lparr>clock := clock_at 1\<rparr>) sample_manifest
       = generateDependencyReport (sample_env\<lparr>clock := clock_at 2\<rparr>) sample_manifest"
    using conjunct2[OF conjunct2[OF plain]] sample by blast
  show ?thesis
    using outline m2 origin run1 run2 m1 sample p3 by (intro conjI)
qed

text \<open>
  An advisory without a source gets the id \<open>vuln-<package>-<Date.now()>\<close>: the same
  manifest and the same audit data analysed at two different times give different reports.
\<close>
theorem report_depends_on_clock_counterexample:
  "generateDependencyReport
     (quiet_env\<lparr>npm_audit_output := Some unsourced_audit, clock := clock_at 1\<rparr>) (JObj [])
   \<noteq> generateDependencyReport
     (quiet_env\<lparr>npm_audit_output := Some unsourced_audit, clock := clock_at 2\<rparr>) (JObj [])"
  by code_simp

end
